theory Spec2Isabelle
  imports Complex_Main
begin

section \<open>The store\<close>

text \<open>
  The tables of \<^verbatim>\<open>src/config/database.js\<close> (\<^verbatim>\<open>createTables\<close>), each as the list of
  its rows in insertion order. A \<^verbatim>\<open>SELECT ... WHERE\<close> is a \<open>filter\<close>, an
  \<^verbatim>\<open>UPDATE ... WHERE\<close> a \<open>map\<close>, an \<^verbatim>\<open>INSERT\<close> appends a row after the
  constraints of the table have been checked. Identifiers (UUIDs in the store) are natural
  numbers; an identifier that the store generates (\<^verbatim>\<open>gen_random_uuid()\<close>) is an extra
  argument of the handler that inserts the row. Columns that no modelled handler reads
  (coordinates, description, avatar, the timestamps) are left out. A column name that
  several tables share carries its table here: \<open>lobby_row_status\<close> is
  \<^verbatim>\<open>lobbies.status\<close>, \<open>member_status\<close> is \<^verbatim>\<open>lobby_members.status\<close>,
  \<open>part_rating\<close> is \<^verbatim>\<open>ride_participants.rating\<close>, \<open>user_rating\<close> is
  \<^verbatim>\<open>users.rating\<close>.

  A handler is modelled from the point where its body is entered: \<open>user\<close> is
  \<^verbatim>\<open>req.user.id\<close> (\<^verbatim>\<open>socket.user.id\<close>), the user that \<^verbatim>\<open>authenticateToken\<close>
  (\<^verbatim>\<open>socketAuth\<close>) has established; the validators of a request body stand in front
  of the handler they guard. A handler returns its answer and the store it leaves.
\<close>

type_synonym uuid = nat

text \<open>A \<^verbatim>\<open>DECIMAL\<close> column holds a number or \<^verbatim>\<open>NaN\<close>.\<close>

datatype numeric = NaN | Num rat

record user_row =
  user_id :: uuid
  total_rides :: int
  user_rating :: numeric

record lobby_row =
  lobby_id :: uuid
  creator_id :: uuid
  from_location :: string
  to_location :: string
  departure_time :: nat
  vehicle_type :: string
  available_seats :: int
  price_per_seat :: rat
  lobby_row_status :: string

record member_row =
  member_lobby_id :: uuid
  member_user_id :: uuid
  pickup_location :: string
  member_status :: string

record chat_row =
  chat_lobby_id :: uuid
  chat_user_id :: uuid
  chat_message :: string
  message_type :: string

record ride_row =
  ride_id :: uuid
  ride_lobby_id :: uuid
  driver_id :: uuid
  ride_from_location :: string
  ride_to_location :: string
  ride_departure_time :: nat
  total_amount :: rat
  distance_km :: rat
  duration_minutes :: int
  ride_status :: string

record participant_row =
  part_ride_id :: uuid
  part_user_id :: uuid
  amount_paid :: rat
  part_pickup_location :: string
  dropoff_location :: string
  part_rating :: "int option"
  review :: "string option"

record db =
  users :: "user_row list"
  lobbies :: "lobby_row list"
  lobby_members :: "member_row list"
  chat_messages :: "chat_row list"
  rides :: "ride_row list"
  ride_participants :: "participant_row list"

definition empty_db :: db where
  "empty_db = \<lparr>users = [], lobbies = [], lobby_members = [], chat_messages = [],
     rides = [], ride_participants = []\<rparr>"

text \<open>
  What a REST handler answers: the HTTP status, the \<^verbatim>\<open>success\<close> flag and the
  \<^verbatim>\<open>message\<close> of the JSON body.
\<close>

datatype response = Response (http_status: nat) (success: bool) (message: string)

text \<open>What a socket handler emits, to the sender or to the room of the lobby.\<close>

datatype emitted =
    ErrorEvent string
  | LobbyStatusChanged uuid string
  | NewMessage uuid uuid string string

section \<open>Lobbies\<close>

subsection \<open>Request validation (\<^verbatim>\<open>src/middleware/validation.js\<close>)\<close>

text \<open>The whitespace that \<^verbatim>\<open>trim()\<close> strips, among the 8-bit characters.\<close>

definition is_space :: "char \<Rightarrow> bool" where
  "is_space c = (of_char c \<in> {9, 10, 11, 12, 13, 32, 160 :: nat})"

definition trim :: "string \<Rightarrow> string" where
  "trim s = rev (dropWhile is_space (rev (dropWhile is_space s)))"

text \<open>
  The body of \<^verbatim>\<open>POST /\<close>. \<open>departureTime\<close> is \<open>None\<close> when the text sent is not an
  ISO 8601 date; \<open>availableSeats\<close> and \<open>pricePerSeat\<close> are the numbers sent (a body
  whose fields are not numbers fails \<^verbatim>\<open>isInt\<close> and \<^verbatim>\<open>isFloat\<close>).
\<close>

record create_body =
  fromLocation :: string
  toLocation :: string
  departureTime :: "nat option"
  vehicleType :: string
  availableSeats :: int
  pricePerSeat :: rat

definition createLobbyValidation :: "create_body \<Rightarrow> bool" where
  "createLobbyValidation b \<longleftrightarrow>
     2 \<le> length (trim (fromLocation b)) \<and> length (trim (fromLocation b)) \<le> 255 \<and>
     2 \<le> length (trim (toLocation b)) \<and> length (trim (toLocation b)) \<le> 255 \<and>
     departureTime b \<noteq> None \<and>
     vehicleType b \<in> set [''small'', ''medium'', ''large''] \<and>
     1 \<le> availableSeats b \<and> availableSeats b \<le> 15 \<and>
     0 \<le> pricePerSeat b"

subsection \<open>Queries on the membership table\<close>

definition members_of :: "db \<Rightarrow> uuid \<Rightarrow> uuid \<Rightarrow> member_row list" where
  \<comment> \<open>\<^verbatim>\<open>SELECT * FROM lobby_members WHERE lobby_id = $1 AND user_id = $2\<close>\<close>
  "members_of d l u =
     filter (\<lambda>m. member_lobby_id m = l \<and> member_user_id m = u) (lobby_members d)"

definition active_members_of :: "db \<Rightarrow> uuid \<Rightarrow> uuid \<Rightarrow> member_row list" where
  \<comment> \<open>\<^verbatim>\<open>... WHERE lobby_id = $1 AND user_id = $2 AND status = 'active'\<close>\<close>
  "active_members_of d l u =
     filter (\<lambda>m. member_lobby_id m = l \<and> member_user_id m = u \<and> member_status m = ''active'')
       (lobby_members d)"

definition active_members :: "db \<Rightarrow> uuid \<Rightarrow> member_row list" where
  \<comment> \<open>\<^verbatim>\<open>SELECT * FROM lobby_members WHERE lobby_id = $1 AND status = 'active'\<close>\<close>
  "active_members d l =
     filter (\<lambda>m. member_lobby_id m = l \<and> member_status m = ''active'') (lobby_members d)"

definition insert_member :: "db \<Rightarrow> member_row \<Rightarrow> db option" where
  \<comment> \<open>\<^verbatim>\<open>INSERT INTO lobby_members\<close>: rejected by \<^verbatim>\<open>UNIQUE(lobby_id, user_id)\<close> and by
      \<^verbatim>\<open>VARCHAR(255)\<close>; the status column takes its default \<^verbatim>\<open>'active'\<close>.\<close>
  "insert_member d m =
     (if members_of d (member_lobby_id m) (member_user_id m) = [] \<and> length (pickup_location m) \<le> 255
      then Some (d\<lparr>lobby_members := lobby_members d @ [m\<lparr>member_status := ''active''\<rparr>]\<rparr>)
      else None)"

definition set_lobby_status :: "db \<Rightarrow> uuid \<Rightarrow> string \<Rightarrow> db" where
  \<comment> \<open>\<^verbatim>\<open>UPDATE lobbies SET status = $1 WHERE id = $2\<close>\<close>
  "set_lobby_status d l s =
     d\<lparr>lobbies := map (\<lambda>x. if lobby_id x = l then x\<lparr>lobby_row_status := s\<rparr> else x) (lobbies d)\<rparr>"

subsection \<open>\<^verbatim>\<open>POST /\<close>: create lobby\<close>

text \<open>
  What \<^verbatim>\<open>mapboxService.geocodeAddress\<close> did for the two places: it found both, it
  returned \<^verbatim>\<open>null\<close> for one, or it threw.
\<close>

datatype geocoding = Resolved | NothingFound | ServiceError

text \<open>
  \<open>new_id\<close> is the identifier the store generates for the row (the primary key rejects
  one already taken). The two inserts are separate statements: when the second is rejected
  the lobby row stays.
\<close>

definition create_lobby ::
  "db \<Rightarrow> uuid \<Rightarrow> create_body \<Rightarrow> geocoding \<Rightarrow> uuid \<Rightarrow> response \<times> db" where
  "create_lobby d user b geo new_id =
     (if \<not> createLobbyValidation b then (Response 400 False ''Validation failed'', d)
      else if geo = ServiceError then (Response 500 False ''Failed to create lobby'', d)
      else if geo = NothingFound then
        (Response 400 False ''Could not find coordinates for the provided locations'', d)
      else if new_id \<in> lobby_id ` set (lobbies d) then
        (Response 500 False ''Failed to create lobby'', d)
      else
        let lobby = \<lparr>lobby_id = new_id, creator_id = user,
                     from_location = trim (fromLocation b), to_location = trim (toLocation b),
                     departure_time = (case departureTime b of Some t \<Rightarrow> t | None \<Rightarrow> 0),
                     vehicle_type = vehicleType b,
                     available_seats = availableSeats b, price_per_seat = pricePerSeat b,
                     lobby_row_status = ''active''\<rparr>;
            d1 = d\<lparr>lobbies := lobbies d @ [lobby]\<rparr>
        in case insert_member d1 \<lparr>member_lobby_id = new_id, member_user_id = user,
                                   pickup_location = trim (fromLocation b),
                                   member_status = ''active''\<rparr> of
             None \<Rightarrow> (Response 500 False ''Failed to create lobby'', d1)
           | Some d2 \<Rightarrow> (Response 201 True ''Lobby created successfully'', d2))"

subsection \<open>\<^verbatim>\<open>POST /:id/join\<close>\<close>

text \<open>
  \<open>pickupLocation\<close> is \<open>None\<close> when the body has none; \<^verbatim>\<open>pickupLocation || lobby.from_location\<close>
  also falls back on the empty string.
\<close>

definition join_lobby :: "db \<Rightarrow> uuid \<Rightarrow> uuid \<Rightarrow> string option \<Rightarrow> response \<times> db" where
  "join_lobby d user lobbyId pickupLocation =
     (case filter (\<lambda>l. lobby_id l = lobbyId \<and> lobby_row_status l = ''active'') (lobbies d) of
        [] \<Rightarrow> (Response 404 False ''Lobby not found or not active'', d)
      | lobby # _ \<Rightarrow>
          if members_of d lobbyId user \<noteq> [] then
            (Response 400 False ''You are already a member of this lobby'', d)
          else if int (length (active_members d lobbyId)) \<ge> available_seats lobby then
            (Response 400 False ''Lobby is full'', d)
          else
            (case insert_member d \<lparr>member_lobby_id = lobbyId, member_user_id = user,
                     pickup_location =
                       (case pickupLocation of
                          None \<Rightarrow> from_location lobby
                        | Some p \<Rightarrow> if p = [] then from_location lobby else p),
                     member_status = ''active''\<rparr> of
               None \<Rightarrow> (Response 500 False ''Failed to join lobby'', d)
             | Some d1 \<Rightarrow> (Response 200 True ''Successfully joined lobby'', d1)))"

subsection \<open>\<^verbatim>\<open>POST /:id/leave\<close>\<close>

definition mark_left :: "db \<Rightarrow> uuid \<Rightarrow> uuid \<Rightarrow> db" where
  \<comment> \<open>\<^verbatim>\<open>UPDATE lobby_members SET status = 'left' WHERE lobby_id = $2 AND user_id = $3\<close>\<close>
  "mark_left d l u =
     d\<lparr>lobby_members :=
         map (\<lambda>m. if member_lobby_id m = l \<and> member_user_id m = u
                   then m\<lparr>member_status := ''left''\<rparr> else m) (lobby_members d)\<rparr>"

text \<open>
  After the membership is marked, \<^verbatim>\<open>lobbyResult.rows[0].creator_id\<close> is read: with no such
  lobby row the read throws and the handler answers 500, the membership update staying.
\<close>

definition leave_lobby :: "db \<Rightarrow> uuid \<Rightarrow> uuid \<Rightarrow> response \<times> db" where
  "leave_lobby d user lobbyId =
     (if active_members_of d lobbyId user = [] then
        (Response 400 False ''You are not a member of this lobby'', d)
      else
        let d1 = mark_left d lobbyId user
        in case filter (\<lambda>l. lobby_id l = lobbyId) (lobbies d1) of
             [] \<Rightarrow> (Response 500 False ''Failed to leave lobby'', d1)
           | lobby # _ \<Rightarrow>
               if creator_id lobby = user then
                 (Response 200 True ''Successfully left lobby'',
                  set_lobby_status d1 lobbyId ''cancelled'')
               else (Response 200 True ''Successfully left lobby'', d1))"

subsection \<open>\<^verbatim>\<open>PUT /:id/status\<close> and the socket event \<^verbatim>\<open>lobby_status_update\<close>\<close>

definition update_status :: "db \<Rightarrow> uuid \<Rightarrow> uuid \<Rightarrow> string \<Rightarrow> response \<times> db" where
  "update_status d user lobbyId status =
     (if status \<notin> set [''active'', ''started'', ''completed'', ''cancelled''] then
        (Response 400 False ''Invalid status'', d)
      else case filter (\<lambda>l. lobby_id l = lobbyId) (lobbies d) of
             [] \<Rightarrow> (Response 404 False ''Lobby not found'', d)
           | lobby # _ \<Rightarrow>
               if creator_id lobby \<noteq> user then
                 (Response 403 False ''Only lobby creator can update status'', d)
               else (Response 200 True ''Lobby status updated successfully'',
                     set_lobby_status d lobbyId status))"

text \<open>
  The socket handler (\<^verbatim>\<open>src/services/socketService.js\<close>) checks the creator only; the
  column is \<^verbatim>\<open>VARCHAR(20)\<close>, so the store rejects a longer text and the handler emits
  its failure message.
\<close>

definition lobby_status_update :: "db \<Rightarrow> uuid \<Rightarrow> uuid \<Rightarrow> string \<Rightarrow> emitted \<times> db" where
  "lobby_status_update d user lobbyId status =
     (if filter (\<lambda>l. lobby_id l = lobbyId \<and> creator_id l = user) (lobbies d) = [] then
        (ErrorEvent ''Not authorized to update this lobby'', d)
      else if length status > 20 then (ErrorEvent ''Failed to update lobby status'', d)
      else (LobbyStatusChanged lobbyId status, set_lobby_status d lobbyId status))"

subsection \<open>Sequences of lobby requests\<close>

text \<open>
  The requests that write to \<^verbatim>\<open>lobbies\<close> or \<^verbatim>\<open>lobby_members\<close>, with the
  authenticated user first, and the store after one request and after a sequence of them.
\<close>

datatype request =
    CreateLobby uuid create_body geocoding uuid
  | JoinLobby uuid uuid "string option"
  | LeaveLobby uuid uuid
  | UpdateStatus uuid uuid string
  | SocketStatusUpdate uuid uuid string

fun handle :: "db \<Rightarrow> request \<Rightarrow> db" where
  "handle d (CreateLobby user b geo new_id) = snd (create_lobby d user b geo new_id)"
| "handle d (JoinLobby user lobbyId pickupLocation) = snd (join_lobby d user lobbyId pickupLocation)"
| "handle d (LeaveLobby user lobbyId) = snd (leave_lobby d user lobbyId)"
| "handle d (UpdateStatus user lobbyId status) = snd (update_status d user lobbyId status)"
| "handle d (SocketStatusUpdate user lobbyId status) = snd (lobby_status_update d user lobbyId status)"

definition run :: "db \<Rightarrow> request list \<Rightarrow> db" where
  "run d rs = foldl handle d rs"

text \<open>
  The active members of every lobby fit its seats; and the keys of the two tables are as the
  store keeps them: lobby identifiers are distinct (primary key) and every membership refers
  to a lobby row (foreign key).
\<close>

definition within_capacity :: "db \<Rightarrow> bool" where
  "within_capacity d \<longleftrightarrow>
     (\<forall>l \<in> set (lobbies d). int (length (active_members d (lobby_id l))) \<le> available_seats l)"

definition keys_ok :: "db \<Rightarrow> bool" where
  "keys_ok d \<longleftrightarrow>
     distinct (map lobby_id (lobbies d)) \<and>
     (\<forall>m \<in> set (lobby_members d). member_lobby_id m \<in> lobby_id ` set (lobbies d))"

section \<open>Chat\<close>

text \<open>
  \<^verbatim>\<open>sendMessageValidation\<close> of \<^verbatim>\<open>src/middleware/validation.js\<close>: the message is
  trimmed and must then have 1 to 1000 characters; \<open>messageType\<close> is optional
  (\<open>None\<close> when the body has none) and otherwise one of three kinds.
\<close>

definition sendMessageValidation :: "string \<Rightarrow> string option \<Rightarrow> bool" where
  "sendMessageValidation msg messageType \<longleftrightarrow>
     1 \<le> length (trim msg) \<and> length (trim msg) \<le> 1000 \<and>
     (case messageType of
        None \<Rightarrow> True
      | Some t \<Rightarrow> t \<in> set [''text'', ''image'', ''location''])"

definition insert_chat_message :: "db \<Rightarrow> chat_row \<Rightarrow> db option" where
  \<comment> \<open>\<^verbatim>\<open>INSERT INTO chat_messages\<close>: \<^verbatim>\<open>message\<close> is \<^verbatim>\<open>TEXT\<close>, \<^verbatim>\<open>message_type\<close>
      is \<^verbatim>\<open>VARCHAR(20)\<close>.\<close>
  "insert_chat_message d c =
     (if length (message_type c) > 20 then None
      else Some (d\<lparr>chat_messages := chat_messages d @ [c]\<rparr>))"

text \<open>
  \<^verbatim>\<open>POST /lobby/:lobbyId/message\<close>, the REST route, behind \<^verbatim>\<open>sendMessageValidation\<close>.
  After the insert the handler reads the sender's row of \<^verbatim>\<open>users\<close> for the answer;
  \<^verbatim>\<open>user.name\<close> throws when there is none.
\<close>

definition post_message ::
  "db \<Rightarrow> uuid \<Rightarrow> uuid \<Rightarrow> string \<Rightarrow> string option \<Rightarrow> response \<times> db" where
  "post_message d user lobbyId msg messageType =
     (if \<not> sendMessageValidation msg messageType then
        (Response 400 False ''Validation failed'', d)
      else if active_members_of d lobbyId user = [] then
        (Response 403 False ''You are not an active member of this lobby'', d)
      else
        case insert_chat_message d
               \<lparr>chat_lobby_id = lobbyId, chat_user_id = user, chat_message = trim msg,
                message_type = (case messageType of None \<Rightarrow> ''text'' | Some t \<Rightarrow> t)\<rparr> of
          None \<Rightarrow> (Response 500 False ''Failed to send message'', d)
        | Some d1 \<Rightarrow>
            if filter (\<lambda>u. user_id u = user) (users d1) = [] then
              (Response 500 False ''Failed to send message'', d1)
            else (Response 201 True ''Message sent successfully'', d1))"

text \<open>
  The socket event \<^verbatim>\<open>send_message\<close> of \<^verbatim>\<open>src/services/socketService.js\<close>: the
  membership check, then the insert of the message as received.
\<close>

definition send_message ::
  "db \<Rightarrow> uuid \<Rightarrow> uuid \<Rightarrow> string \<Rightarrow> string option \<Rightarrow> emitted \<times> db" where
  "send_message d user lobbyId msg messageType =
     (let mt = (case messageType of None \<Rightarrow> ''text'' | Some t \<Rightarrow> t)
      in if active_members_of d lobbyId user = [] then
           (ErrorEvent ''Not authorized to send messages to this lobby'', d)
         else
           case insert_chat_message d
                  \<lparr>chat_lobby_id = lobbyId, chat_user_id = user, chat_message = msg,
                   message_type = mt\<rparr> of
             None \<Rightarrow> (ErrorEvent ''Failed to send message'', d)
           | Some d1 \<Rightarrow> (NewMessage lobbyId user msg mt, d1))"

text \<open>What the data model asks of a stored chat message.\<close>

definition chat_row_ok :: "chat_row \<Rightarrow> bool" where
  "chat_row_ok c \<longleftrightarrow>
     1 \<le> length (chat_message c) \<and> length (chat_message c) \<le> 1000 \<and>
     message_type c \<in> set [''text'', ''image'', ''location'']"

section \<open>Rides (\<^verbatim>\<open>src/routes/rides.js\<close>)\<close>

subsection \<open>Decimal columns\<close>

text \<open>
  A value written to a \<^verbatim>\<open>DECIMAL(p, s)\<close> column is rounded to \<open>s\<close> decimal places,
  halves away from zero, and rejected when the rounded value needs more than \<open>p\<close>
  digits. The numbers of the handlers are rationals here: the binary floating point of
  \<^verbatim>\<open>totalAmount / members.length\<close> and of \<^verbatim>\<open>parseFloat\<close> is not modelled.
\<close>

definition round_half_away :: "rat \<Rightarrow> int" where
  "round_half_away x = (if 0 \<le> x then \<lfloor>x + 1 / 2\<rfloor> else - \<lfloor>- x + 1 / 2\<rfloor>)"

definition to_numeric :: "nat \<Rightarrow> nat \<Rightarrow> rat \<Rightarrow> rat option" where
  "to_numeric p s x =
     (let n = round_half_away (x * 10 ^ s)
      in if \<bar>n\<bar> \<ge> 10 ^ p then None else Some (of_int n / 10 ^ s))"

subsection \<open>\<^verbatim>\<open>POST /complete/:lobbyId\<close>\<close>

text \<open>
  The handler asks for a client with \<^verbatim>\<open>query.pool.connect()\<close>, where
  \<^verbatim>\<open>const { query } = require('../config/database')\<close>. The module exports
  \<^verbatim>\<open>{ pool, connectDB, query: (text, params) => pool.query(text, params) }\<close>: the pool
  is a property of the exports, beside the function \<^verbatim>\<open>query\<close>, and not a property of
  that function. Reading a property that a value does not have gives \<^verbatim>\<open>undefined\<close>.
\<close>

datatype js_value = Undefined | PoolObject | FunctionValue | ObjectValue "(string \<times> js_value) list"

fun property :: "js_value \<Rightarrow> string \<Rightarrow> js_value" where
  "property (ObjectValue props) key =
     (case map_of props key of None \<Rightarrow> Undefined | Some v \<Rightarrow> v)"
| "property v key = Undefined"

definition database_exports :: js_value where
  "database_exports =
     ObjectValue [(''pool'', PoolObject), (''connectDB'', FunctionValue), (''query'', FunctionValue)]"

definition query_pool :: js_value where
  "query_pool = property (property database_exports ''query'') ''pool''"

text \<open>
  The statements between \<^verbatim>\<open>BEGIN\<close> and \<^verbatim>\<open>COMMIT\<close>; \<open>None\<close> when the store
  rejects one of them, which the handler answers with \<^verbatim>\<open>ROLLBACK\<close>. First the loop
  over the members: a participant row and the increment of \<^verbatim>\<open>total_rides\<close> for each.
\<close>

fun add_participants :: "db \<Rightarrow> uuid \<Rightarrow> rat \<Rightarrow> string \<Rightarrow> member_row list \<Rightarrow> db option" where
  "add_participants d ride amountPerPerson dropoff [] = Some d"
| "add_participants d ride amountPerPerson dropoff (member # members) =
     (case to_numeric 10 2 amountPerPerson of
        None \<Rightarrow> None
      | Some a \<Rightarrow>
          let d1 = d\<lparr>ride_participants := ride_participants d @
                     [\<lparr>part_ride_id = ride, part_user_id = member_user_id member,
                       amount_paid = a, part_pickup_location = pickup_location member,
                       dropoff_location = dropoff, part_rating = None, review = None\<rparr>]\<rparr>;
              d2 = d1\<lparr>users := map (\<lambda>u. if user_id u = member_user_id member
                                         then u\<lparr>total_rides := total_rides u + 1\<rparr> else u)
                                  (users d1)\<rparr>
          in add_participants d2 ride amountPerPerson dropoff members)"

definition complete_transaction ::
  "db \<Rightarrow> lobby_row \<Rightarrow> uuid \<Rightarrow> member_row list \<Rightarrow> rat \<Rightarrow> rat \<Rightarrow> rat \<Rightarrow> int \<Rightarrow> uuid
     \<Rightarrow> db option" where
  "complete_transaction d lobby user members amountPerPerson totalAmount distanceKm
       durationMinutes new_id =
     (case (to_numeric 10 2 totalAmount, to_numeric 8 2 distanceKm) of
        (Some t, Some k) \<Rightarrow>
          if new_id \<in> ride_id ` set (rides d) then None
          else
            let d1 = d\<lparr>rides := rides d @
                       [\<lparr>ride_id = new_id, ride_lobby_id = lobby_id lobby, driver_id = user,
                         ride_from_location = from_location lobby,
                         ride_to_location = to_location lobby,
                         ride_departure_time = departure_time lobby,
                         total_amount = t, distance_km = k,
                         duration_minutes = durationMinutes, ride_status = ''completed''\<rparr>]\<rparr>
            in (case add_participants d1 new_id amountPerPerson (to_location lobby) members of
                  None \<Rightarrow> None
                | Some d2 \<Rightarrow> Some (set_lobby_status d2 (lobby_id lobby) ''completed''))
      | _ \<Rightarrow> None)"

text \<open>
  The handler. \<^verbatim>\<open>query.pool.connect()\<close> stands before the inner \<^verbatim>\<open>try\<close>: when
  \<^verbatim>\<open>query.pool\<close> is not the pool the call throws a \<^verbatim>\<open>TypeError\<close>, the outer
  \<^verbatim>\<open>catch\<close> answers 500 and no statement of the transaction is sent. \<open>new_id\<close> is
  the identifier the store would give the ride row.
\<close>

definition complete_ride ::
  "db \<Rightarrow> uuid \<Rightarrow> uuid \<Rightarrow> rat \<Rightarrow> rat \<Rightarrow> int \<Rightarrow> uuid \<Rightarrow> response \<times> db" where
  "complete_ride d user lobbyId totalAmount distanceKm durationMinutes new_id =
     (case filter (\<lambda>l. lobby_id l = lobbyId \<and> creator_id l = user \<and> lobby_row_status l = ''started'')
             (lobbies d) of
        [] \<Rightarrow> (Response 404 False ''Lobby not found or you are not authorized to complete it'', d)
      | lobby # _ \<Rightarrow>
          let members = active_members d lobbyId
          in if members = [] then (Response 400 False ''No active members in lobby'', d)
             else
               let amountPerPerson = totalAmount / of_nat (length members)
               in case query_pool of
                    PoolObject \<Rightarrow>
                      (case complete_transaction d lobby user members amountPerPerson
                              totalAmount distanceKm durationMinutes new_id of
                         None \<Rightarrow> (Response 500 False ''Failed to complete ride'', d)
                       | Some d1 \<Rightarrow> (Response 200 True ''Ride completed successfully'', d1))
                  | _ \<Rightarrow> (Response 500 False ''Failed to complete ride'', d))"

subsection \<open>\<^verbatim>\<open>POST /:id/rate\<close>\<close>

definition participants_of :: "db \<Rightarrow> uuid \<Rightarrow> uuid \<Rightarrow> participant_row list" where
  \<comment> \<open>\<^verbatim>\<open>SELECT * FROM ride_participants WHERE ride_id = $1 AND user_id = $2\<close>\<close>
  "participants_of d r u =
     filter (\<lambda>x. part_ride_id x = r \<and> part_user_id x = u) (ride_participants d)"

fun ratings :: "participant_row list \<Rightarrow> int list" where
  "ratings [] = []"
| "ratings (x # xs) = (case part_rating x of None \<Rightarrow> ratings xs | Some r \<Rightarrow> r # ratings xs)"

definition ratings_of :: "db \<Rightarrow> uuid \<Rightarrow> int list" where
  \<comment> \<open>the ratings that \<^verbatim>\<open>... WHERE user_id = $1 AND rating IS NOT NULL\<close> selects\<close>
  "ratings_of d u = ratings (filter (\<lambda>x. part_user_id x = u) (ride_participants d))"

definition mean :: "int list \<Rightarrow> rat" where
  "mean rs = of_int (sum_list rs) / of_nat (length rs)"

definition avg_rating :: "db \<Rightarrow> uuid \<Rightarrow> rat option" where
  \<comment> \<open>\<^verbatim>\<open>SELECT AVG(rating) ...\<close>: \<^verbatim>\<open>NULL\<close> over no rows\<close>
  "avg_rating d u = (if ratings_of d u = [] then None else Some (mean (ratings_of d u)))"

definition set_participant_rating :: "db \<Rightarrow> uuid \<Rightarrow> uuid \<Rightarrow> int \<Rightarrow> string option \<Rightarrow> db" where
  \<comment> \<open>\<^verbatim>\<open>UPDATE ride_participants SET rating = $1, review = $2 WHERE ride_id = $3 AND user_id = $4\<close>\<close>
  "set_participant_rating d r u v t =
     d\<lparr>ride_participants :=
         map (\<lambda>x. if part_ride_id x = r \<and> part_user_id x = u
                   then x\<lparr>part_rating := Some v, review := t\<rparr> else x) (ride_participants d)\<rparr>"

definition set_user_rating :: "db \<Rightarrow> uuid \<Rightarrow> numeric \<Rightarrow> db" where
  \<comment> \<open>\<^verbatim>\<open>UPDATE users SET rating = $1 WHERE id = $2\<close>\<close>
  "set_user_rating d u v =
     d\<lparr>users := map (\<lambda>x. if user_id x = u then x\<lparr>user_rating := v\<rparr> else x) (users d)\<rparr>"

text \<open>
  \<open>participantUserId\<close> and \<open>rating\<close> are \<open>None\<close> when the body has none;
  \<^verbatim>\<open>!rating\<close> also holds of 0. The rating is a whole number (the column is
  \<^verbatim>\<open>INTEGER\<close>). \<^verbatim>\<open>parseFloat\<close> of the \<^verbatim>\<open>NULL\<close> average is \<^verbatim>\<open>NaN\<close>; the
  \<^verbatim>\<open>users.rating\<close> column is \<^verbatim>\<open>DECIMAL(3,2)\<close>. The statements are not in a
  transaction: when the last one is rejected the participant's rating stays.
\<close>

definition rate_participant ::
  "db \<Rightarrow> uuid \<Rightarrow> uuid \<Rightarrow> uuid option \<Rightarrow> int option \<Rightarrow> string option \<Rightarrow> response \<times> db" where
  "rate_participant d user rideId participantUserId rating review_text =
     (case (participantUserId, rating) of
        (Some p, Some r) \<Rightarrow>
          if r = 0 then (Response 400 False ''Participant user ID and rating are required'', d)
          else if r < 1 \<or> r > 5 then (Response 400 False ''Rating must be between 1 and 5'', d)
          else if participants_of d rideId user = [] then
            (Response 403 False ''You were not a participant in this ride'', d)
          else if participants_of d rideId p = [] then
            (Response 400 False ''User was not a participant in this ride'', d)
          else if filter (\<lambda>x. part_rating x \<noteq> None) (participants_of d rideId p) \<noteq> [] then
            (Response 400 False ''You have already rated this participant'', d)
          else
            let d1 = set_participant_rating d rideId p r review_text
            in (case avg_rating d1 p of
                  None \<Rightarrow> (Response 200 True ''Rating submitted successfully'',
                           set_user_rating d1 p NaN)
                | Some avgRating \<Rightarrow>
                    (case to_numeric 3 2 avgRating of
                       None \<Rightarrow> (Response 500 False ''Failed to submit rating'', d1)
                     | Some v \<Rightarrow> (Response 200 True ''Rating submitted successfully'',
                                  set_user_rating d1 p (Num v))))
      | _ \<Rightarrow> (Response 400 False ''Participant user ID and rating are required'', d))"

section \<open>Example stores\<close>

text \<open>
  Two users; a lobby of two seats that user 7 creates and user 8 joins; the same lobby
  after the creator started it, after the creator also completed it, and after the creator
  left it instead; and a store with three past rides, in which user 7 took part in all and
  user 8 in the last: user 7 has the ratings 5 and 4 (stored rating 4.50), and nobody is
  rated for ride 5 yet.
\<close>

definition body1 :: create_body where
  "body1 = \<lparr>fromLocation = ''Bole'', toLocation = ''Piassa'', departureTime = Some 0,
     vehicleType = ''medium'', availableSeats = 2, pricePerSeat = 45\<rparr>"

definition two_users :: db where
  "two_users = empty_db\<lparr>users :=
     [\<lparr>user_id = 7, total_rides = 0, user_rating = Num 5\<rparr>,
      \<lparr>user_id = 8, total_rides = 0, user_rating = Num 5\<rparr>]\<rparr>"

definition full_db :: db where
  "full_db = run two_users [CreateLobby 7 body1 Resolved 1, JoinLobby 8 1 None]"

definition started_db :: db where
  "started_db = run full_db [UpdateStatus 7 1 ''started'']"

definition completed_db :: db where
  "completed_db = run started_db [UpdateStatus 7 1 ''completed'']"

definition cancelled_db :: db where
  "cancelled_db = run full_db [LeaveLobby 7 1]"

definition past_lobby :: "uuid \<Rightarrow> lobby_row" where
  "past_lobby l = \<lparr>lobby_id = l, creator_id = 7, from_location = ''Bole'',
     to_location = ''Piassa'', departure_time = 0, vehicle_type = ''medium'',
     available_seats = 2, price_per_seat = 45, lobby_row_status = ''completed''\<rparr>"

definition past_member :: "uuid \<Rightarrow> uuid \<Rightarrow> member_row" where
  "past_member l u = \<lparr>member_lobby_id = l, member_user_id = u, pickup_location = ''Bole'',
     member_status = ''active''\<rparr>"

definition past_ride :: "uuid \<Rightarrow> uuid \<Rightarrow> rat \<Rightarrow> ride_row" where
  "past_ride r l amount = \<lparr>ride_id = r, ride_lobby_id = l, driver_id = 7,
     ride_from_location = ''Bole'', ride_to_location = ''Piassa'', ride_departure_time = 0,
     total_amount = amount, distance_km = 12, duration_minutes = 25,
     ride_status = ''completed''\<rparr>"

definition participant :: "uuid \<Rightarrow> uuid \<Rightarrow> int option \<Rightarrow> participant_row" where
  "participant r u v = \<lparr>part_ride_id = r, part_user_id = u, amount_paid = 45,
     part_pickup_location = ''Bole'', dropoff_location = ''Piassa'', part_rating = v,
     review = None\<rparr>"

definition rated_db :: db where
  "rated_db =
     \<lparr>users = [\<lparr>user_id = 7, total_rides = 3, user_rating = Num (9 / 2)\<rparr>,
               \<lparr>user_id = 8, total_rides = 1, user_rating = Num 5\<rparr>],
      lobbies = [past_lobby 1, past_lobby 2, past_lobby 3],
      lobby_members = [past_member 1 7, past_member 2 7, past_member 3 7, past_member 3 8],
      chat_messages = [],
      rides = [past_ride 3 1 45, past_ride 4 2 45, past_ride 5 3 90],
      ride_participants = [participant 3 7 (Some 5), participant 4 7 (Some 4),
                           participant 5 7 None, participant 5 8 None]\<rparr>"

text \<open>A user has a membership of the lobby and none that is active.\<close>

definition has_left :: "db \<Rightarrow> uuid \<Rightarrow> uuid \<Rightarrow> bool" where
  "has_left d l u \<longleftrightarrow> members_of d l u \<noteq> [] \<and> active_members_of d l u = []"

text \<open>
  Rounding to two decimal places, as a \<^verbatim>\<open>DECIMAL(3,2)\<close> column does; and the
  constraint \<^verbatim>\<open>CHECK (rating >= 1 AND rating <= 5)\<close> of \<^verbatim>\<open>ride_participants\<close>.
\<close>

definition round2 :: "rat \<Rightarrow> rat" where
  "round2 x = of_int (round_half_away (x * 100)) / 100"

definition ratings_checked :: "db \<Rightarrow> bool" where
  "ratings_checked d \<longleftrightarrow>
     (\<forall>x \<in> set (ride_participants d).
        case part_rating x of None \<Rightarrow> True | Some v \<Rightarrow> 1 \<le> v \<and> v \<le> 5)"

section \<open>Properties of the store operations\<close>

lemma mark_left_fields [simp]:
  "lobbies (mark_left d l u) = lobbies d"
  "users (mark_left d l u) = users d"
  "chat_messages (mark_left d l u) = chat_messages d"
  "rides (mark_left d l u) = rides d"
  "ride_participants (mark_left d l u) = ride_participants d"
  by (simp_all add: mark_left_def)

lemma set_lobby_status_fields [simp]:
  "lobby_members (set_lobby_status d l s) = lobby_members d"
  "users (set_lobby_status d l s) = users d"
  "chat_messages (set_lobby_status d l s) = chat_messages d"
  "rides (set_lobby_status d l s) = rides d"
  "ride_participants (set_lobby_status d l s) = ride_participants d"
  by (simp_all add: set_lobby_status_def)

lemma lobby_members_mark_left:
  "lobby_members (mark_left d l u) =
     map (\<lambda>m. if member_lobby_id m = l \<and> member_user_id m = u
               then m\<lparr>member_status := ''left''\<rparr> else m) (lobby_members d)"
  by (simp add: mark_left_def)

lemma lobbies_set_lobby_status:
  "lobbies (set_lobby_status d l s) =
     map (\<lambda>x. if lobby_id x = l then x\<lparr>lobby_row_status := s\<rparr> else x) (lobbies d)"
  by (simp add: set_lobby_status_def)

lemma set_lobby_status_ids [simp]:
  "map lobby_id (lobbies (set_lobby_status d l s)) = map lobby_id (lobbies d)"
  by (simp add: set_lobby_status_def comp_def)

lemma active_members_set_lobby_status [simp]:
  "active_members (set_lobby_status d l s) l' = active_members d l'"
  by (simp add: active_members_def)

lemma members_of_set_lobby_status [simp]:
  "members_of (set_lobby_status d l s) l' u = members_of d l' u"
  "active_members_of (set_lobby_status d l s) l' u = active_members_of d l' u"
  by (simp_all add: members_of_def active_members_of_def)

lemma ball_set_map: "(\<forall>y \<in> set (map f xs). Q y) = (\<forall>x \<in> set xs. Q (f x))"
  by (induction xs) simp_all

lemma length_filter_mono:
  assumes "\<And>x. Q x \<Longrightarrow> P x"
  shows "length (filter Q xs) \<le> length (filter P xs)"
  using assms by (induction xs) (simp_all add: le_SucI)

lemma active_members_mark_left:
  "length (active_members (mark_left d l u) l') \<le> length (active_members d l')"
proof -
  let ?P = "\<lambda>m. member_lobby_id m = l' \<and> member_status m = ''active''"
  let ?f = "\<lambda>m. if member_lobby_id m = l \<and> member_user_id m = u
                 then m\<lparr>member_status := ''left''\<rparr> else m"
  have imp: "?P (?f x) \<Longrightarrow> ?P x" for x
    by (simp split: if_splits)
  have "length (filter ?P (map ?f (lobby_members d))) = length (filter (\<lambda>x. ?P (?f x)) (lobby_members d))"
    by (simp only: filter_map length_map comp_def)
  also have "\<dots> \<le> length (filter ?P (lobby_members d))"
    by (rule length_filter_mono) (rule imp)
  finally show ?thesis by (simp only: active_members_def lobby_members_mark_left)
qed

lemma within_capacity_set_lobby_status:
  "within_capacity d \<Longrightarrow> within_capacity (set_lobby_status d l s)"
proof -
  assume w: "within_capacity d"
  have "\<forall>x \<in> set (map (\<lambda>x. if lobby_id x = l then x\<lparr>lobby_row_status := s\<rparr> else x) (lobbies d)).
          int (length (active_members d (lobby_id x))) \<le> available_seats x"
    unfolding ball_set_map using w by (simp add: within_capacity_def) blast
  then show ?thesis
    unfolding within_capacity_def active_members_set_lobby_status
    by (simp only: lobbies_set_lobby_status)
qed

lemma keys_ok_set_lobby_status:
  "keys_ok d \<Longrightarrow> keys_ok (set_lobby_status d l s)"
proof -
  assume k: "keys_ok d"
  have "lobby_id ` set (lobbies (set_lobby_status d l s)) = lobby_id ` set (lobbies d)"
    using set_lobby_status_ids [of d l s] by (metis list.set_map)
  then show ?thesis using k by (simp add: keys_ok_def)
qed

lemma within_capacity_mark_left:
  assumes "within_capacity d" shows "within_capacity (mark_left d l u)"
  unfolding within_capacity_def
proof
  fix x assume "x \<in> set (lobbies (mark_left d l u))"
  then have x: "x \<in> set (lobbies d)" by simp
  have "int (length (active_members (mark_left d l u) (lobby_id x)))
          \<le> int (length (active_members d (lobby_id x)))"
    using active_members_mark_left [of d l u "lobby_id x"] by simp
  also have "\<dots> \<le> available_seats x" using assms x by (simp add: within_capacity_def)
  finally show "int (length (active_members (mark_left d l u) (lobby_id x))) \<le> available_seats x" .
qed

lemma keys_ok_mark_left:
  "keys_ok d \<Longrightarrow> keys_ok (mark_left d l u)"
proof -
  assume k: "keys_ok d"
  have "\<forall>m \<in> set (map (\<lambda>m. if member_lobby_id m = l \<and> member_user_id m = u
                    then m\<lparr>member_status := ''left''\<rparr> else m) (lobby_members d)).
          member_lobby_id m \<in> lobby_id ` set (lobbies d)"
    unfolding ball_set_map using k by (simp add: keys_ok_def) blast
  then show ?thesis
    using k unfolding keys_ok_def mark_left_fields
    by (simp only: lobby_members_mark_left simp_thms)
qed

lemma insert_member_Some:
  assumes "insert_member d m = Some d'"
  shows "d' = d\<lparr>lobby_members := lobby_members d @ [m\<lparr>member_status := ''active''\<rparr>]\<rparr>"
    and "members_of d (member_lobby_id m) (member_user_id m) = []"
  using assms by (simp_all add: insert_member_def split: if_splits)

lemma join_lobby_effect:
  obtains (same) "snd (join_lobby d u l p) = d" "\<not> success (fst (join_lobby d u l p))"
  | (added) lobby m where "lobby \<in> set (lobbies d)" "lobby_id lobby = l"
      "lobby_row_status lobby = ''active''" "members_of d l u = []"
      "int (length (active_members d l)) < available_seats lobby"
      "snd (join_lobby d u l p) = d\<lparr>lobby_members := lobby_members d @ [m]\<rparr>"
      "member_lobby_id m = l" "member_user_id m = u" "member_status m = ''active''"
      "fst (join_lobby d u l p) = Response 200 True ''Successfully joined lobby''"
proof (cases "filter (\<lambda>x. lobby_id x = l \<and> lobby_row_status x = ''active'') (lobbies d)")
  case Nil
  then have "join_lobby d u l p = (Response 404 False ''Lobby not found or not active'', d)"
    by (simp add: join_lobby_def)
  then show ?thesis by (intro same) simp_all
next
  case (Cons lobby rest)
  then have "lobby \<in> set (filter (\<lambda>x. lobby_id x = l \<and> lobby_row_status x = ''active'') (lobbies d))"
    by simp
  then have lob: "lobby \<in> set (lobbies d)" "lobby_id lobby = l" "lobby_row_status lobby = ''active''"
    by simp_all
  show ?thesis
  proof (cases "members_of d l u \<noteq> []")
    case True
    then have "join_lobby d u l p = (Response 400 False ''You are already a member of this lobby'', d)"
      using Cons by (simp add: join_lobby_def)
    then show ?thesis by (intro same) simp_all
  next
    case nomem: False
    show ?thesis
    proof (cases "int (length (active_members d l)) \<ge> available_seats lobby")
      case True
      then have "join_lobby d u l p = (Response 400 False ''Lobby is full'', d)"
        using Cons nomem by (simp add: join_lobby_def)
      then show ?thesis by (intro same) simp_all
    next
      case room: False
      let ?m = "\<lparr>member_lobby_id = l, member_user_id = u,
                 pickup_location = (case p of None \<Rightarrow> from_location lobby
                     | Some q \<Rightarrow> if q = [] then from_location lobby else q),
                 member_status = ''active''\<rparr>"
      have j: "join_lobby d u l p =
          (case insert_member d ?m of
             None \<Rightarrow> (Response 500 False ''Failed to join lobby'', d)
           | Some d1 \<Rightarrow> (Response 200 True ''Successfully joined lobby'', d1))"
        using Cons nomem room by (simp add: join_lobby_def)
      show ?thesis
      proof (cases "insert_member d ?m")
        case None
        then have "join_lobby d u l p = (Response 500 False ''Failed to join lobby'', d)"
          using j by simp
        then show ?thesis by (intro same) simp_all
      next
        case (Some d1)
        have d1: "d1 = d\<lparr>lobby_members := lobby_members d @ [?m\<lparr>member_status := ''active''\<rparr>]\<rparr>"
          using insert_member_Some(1) [OF Some] .
        have r: "join_lobby d u l p = (Response 200 True ''Successfully joined lobby'', d1)"
          using j Some by simp
        show ?thesis
          by (rule added [of lobby "?m\<lparr>member_status := ''active''\<rparr>"])
             (use lob nomem room r d1 in simp_all)
      qed
    qed
  qed
qed

lemma create_lobby_effect:
  obtains (same) "snd (create_lobby d u b g n) = d"
  | (lobby_only) lobby where "lobby_id lobby = n" "n \<notin> lobby_id ` set (lobbies d)"
      "1 \<le> available_seats lobby"
      "snd (create_lobby d u b g n) = d\<lparr>lobbies := lobbies d @ [lobby]\<rparr>"
  | (both) lobby m where "lobby_id lobby = n" "n \<notin> lobby_id ` set (lobbies d)"
      "1 \<le> available_seats lobby"
      "member_lobby_id m = n" "member_user_id m = u" "member_status m = ''active''"
      "members_of d n u = []"
      "snd (create_lobby d u b g n) =
         d\<lparr>lobbies := lobbies d @ [lobby]\<rparr>\<lparr>lobby_members := lobby_members d @ [m]\<rparr>"
proof (cases "createLobbyValidation b \<and> g = Resolved \<and> n \<notin> lobby_id ` set (lobbies d)")
  case False
  then have "snd (create_lobby d u b g n) = d"
    by (cases g) (auto simp: create_lobby_def)
  then show ?thesis by (rule same)
next
  case True
  let ?lobby = "\<lparr>lobby_id = n, creator_id = u,
                     from_location = trim (fromLocation b), to_location = trim (toLocation b),
                     departure_time = (case departureTime b of Some t \<Rightarrow> t | None \<Rightarrow> 0),
                     vehicle_type = vehicleType b,
                     available_seats = availableSeats b, price_per_seat = pricePerSeat b,
                     lobby_row_status = ''active''\<rparr>"
  let ?d1 = "d\<lparr>lobbies := lobbies d @ [?lobby]\<rparr>"
  let ?m = "\<lparr>member_lobby_id = n, member_user_id = u,
              pickup_location = trim (fromLocation b), member_status = ''active''\<rparr>"
  have seats: "1 \<le> available_seats ?lobby"
    using True by (simp add: createLobbyValidation_def)
  have c: "create_lobby d u b g n =
      (case insert_member ?d1 ?m of
         None \<Rightarrow> (Response 500 False ''Failed to create lobby'', ?d1)
       | Some d2 \<Rightarrow> (Response 201 True ''Lobby created successfully'', d2))"
    using True by (simp add: create_lobby_def Let_def)
  show ?thesis
  proof (cases "insert_member ?d1 ?m")
    case None
    then have "snd (create_lobby d u b g n) = ?d1" using c by simp
    then show ?thesis using True seats by (intro lobby_only [of ?lobby]) simp_all
  next
    case (Some d2)
    have d2: "d2 = ?d1\<lparr>lobby_members := lobby_members ?d1 @ [?m\<lparr>member_status := ''active''\<rparr>]\<rparr>"
      using insert_member_Some(1) [OF Some] .
    have nm: "members_of ?d1 n u = []"
      using insert_member_Some(2) [OF Some] by simp
    have r: "snd (create_lobby d u b g n) = d2" using c Some by simp
    show ?thesis
      by (rule both [of ?lobby "?m\<lparr>member_status := ''active''\<rparr>"])
         (use True seats nm r d2 in \<open>simp_all add: members_of_def\<close>)
  qed
qed

subsection \<open>Capacity and keys are kept by every lobby request\<close>

lemma distinct_ids_eq:
  assumes "distinct (map lobby_id xs)" "x \<in> set xs" "y \<in> set xs" "lobby_id x = lobby_id y"
  shows "x = y"
  using assms by (meson distinct_map inj_on_eq_iff)

lemma no_members_of_unknown_lobby:
  assumes "keys_ok d" "n \<notin> lobby_id ` set (lobbies d)"
  shows "active_members d n = []"
proof -
  have "\<forall>m \<in> set (lobby_members d). member_lobby_id m \<noteq> n"
    using assms unfolding keys_ok_def by blast
  then show ?thesis by (simp add: active_members_def filter_empty_conv)
qed

lemma keys_ok_add_lobby:
  assumes "keys_ok d" "lobby_id x \<notin> lobby_id ` set (lobbies d)"
  shows "keys_ok (d\<lparr>lobbies := lobbies d @ [x]\<rparr>)"
  using assms unfolding keys_ok_def by simp

lemma within_capacity_add_lobby:
  assumes "keys_ok d" "within_capacity d" "lobby_id x \<notin> lobby_id ` set (lobbies d)"
    "0 \<le> available_seats x"
  shows "within_capacity (d\<lparr>lobbies := lobbies d @ [x]\<rparr>)"
proof -
  have a: "active_members (d\<lparr>lobbies := lobbies d @ [x]\<rparr>) l = active_members d l" for l
    by (simp add: active_members_def)
  have "active_members d (lobby_id x) = []"
    using no_members_of_unknown_lobby [OF assms(1,3)] .
  then show ?thesis
    using assms(2,4) unfolding within_capacity_def a by simp
qed

lemma keys_ok_add_member:
  assumes "keys_ok d" "member_lobby_id m \<in> lobby_id ` set (lobbies d)"
  shows "keys_ok (d\<lparr>lobby_members := lobby_members d @ [m]\<rparr>)"
  using assms unfolding keys_ok_def by simp

lemma active_members_add_member:
  "active_members (d\<lparr>lobby_members := lobby_members d @ [m]\<rparr>) l =
     active_members d l @ (if member_lobby_id m = l \<and> member_status m = ''active'' then [m] else [])"
  by (simp add: active_members_def)

lemma within_capacity_add_member:
  assumes k: "keys_ok d" and w: "within_capacity d" and lob: "lobby \<in> set (lobbies d)"
    and id: "lobby_id lobby = member_lobby_id m"
    and room: "int (length (active_members d (member_lobby_id m))) < available_seats lobby"
  shows "within_capacity (d\<lparr>lobby_members := lobby_members d @ [m]\<rparr>)"
  unfolding within_capacity_def
proof
  fix x assume "x \<in> set (lobbies (d\<lparr>lobby_members := lobby_members d @ [m]\<rparr>))"
  then have x: "x \<in> set (lobbies d)" by simp
  show "int (length (active_members (d\<lparr>lobby_members := lobby_members d @ [m]\<rparr>) (lobby_id x)))
          \<le> available_seats x"
  proof (cases "lobby_id x = member_lobby_id m")
    case True
    have "x = lobby"
      by (rule distinct_ids_eq [of "lobbies d"]) (use k x lob True id in \<open>simp_all add: keys_ok_def\<close>)
    then show ?thesis using room True by (simp add: active_members_add_member)
  next
    case False
    then have "active_members (d\<lparr>lobby_members := lobby_members d @ [m]\<rparr>) (lobby_id x)
                 = active_members d (lobby_id x)"
      by (simp add: active_members_add_member)
    then show ?thesis using w x by (simp add: within_capacity_def)
  qed
qed

lemma join_lobby_preserves:
  assumes "keys_ok d" "within_capacity d"
  shows "keys_ok (snd (join_lobby d u l p)) \<and> within_capacity (snd (join_lobby d u l p))"
proof (cases rule: join_lobby_effect [of d u l p])
  case same
  then show ?thesis using assms by simp
next
  case (added lobby m)
  have "member_lobby_id m \<in> lobby_id ` set (lobbies d)"
    using added(1,2,7) by (metis imageI)
  then have "keys_ok (d\<lparr>lobby_members := lobby_members d @ [m]\<rparr>)"
    using assms(1) by (rule keys_ok_add_member [rotated])
  moreover have "within_capacity (d\<lparr>lobby_members := lobby_members d @ [m]\<rparr>)"
    by (rule within_capacity_add_member [OF assms added(1)]) (simp_all add: added)
  ultimately show ?thesis by (simp add: added(6))
qed

lemma create_lobby_preserves:
  assumes "keys_ok d" "within_capacity d"
  shows "keys_ok (snd (create_lobby d u b g n)) \<and> within_capacity (snd (create_lobby d u b g n))"
proof (cases rule: create_lobby_effect [of d u b g n])
  case same
  then show ?thesis using assms by simp
next
  case (lobby_only lobby)
  have "keys_ok (d\<lparr>lobbies := lobbies d @ [lobby]\<rparr>)"
    by (rule keys_ok_add_lobby) (simp_all add: assms lobby_only)
  moreover have "within_capacity (d\<lparr>lobbies := lobbies d @ [lobby]\<rparr>)"
    by (rule within_capacity_add_lobby) (use assms lobby_only in simp_all)
  ultimately show ?thesis by (simp add: lobby_only(4))
next
  case (both lobby m)
  let ?d1 = "d\<lparr>lobbies := lobbies d @ [lobby]\<rparr>"
  have k1: "keys_ok ?d1"
    by (rule keys_ok_add_lobby) (simp_all add: assms both)
  have w1: "within_capacity ?d1"
    by (rule within_capacity_add_lobby) (use assms both in simp_all)
  have none: "active_members ?d1 n = []"
    using no_members_of_unknown_lobby [OF assms(1) both(2)] by (simp add: active_members_def)
  have eq: "snd (create_lobby d u b g n) = ?d1\<lparr>lobby_members := lobby_members ?d1 @ [m]\<rparr>"
    by (simp add: both(8))
  have "keys_ok (?d1\<lparr>lobby_members := lobby_members ?d1 @ [m]\<rparr>)"
    by (rule keys_ok_add_member [OF k1]) (simp add: both)
  moreover have "within_capacity (?d1\<lparr>lobby_members := lobby_members ?d1 @ [m]\<rparr>)"
    by (rule within_capacity_add_member [OF k1 w1, of lobby]) (use both none in simp_all)
  ultimately show ?thesis by (simp only: eq)
qed

lemma leave_lobby_result:
  "snd (leave_lobby d u l) = d \<or> snd (leave_lobby d u l) = mark_left d l u \<or>
   snd (leave_lobby d u l) = set_lobby_status (mark_left d l u) l ''cancelled''"
  by (simp add: leave_lobby_def Let_def split: list.splits)

lemma leave_lobby_preserves:
  assumes "keys_ok d" "within_capacity d"
  shows "keys_ok (snd (leave_lobby d u l)) \<and> within_capacity (snd (leave_lobby d u l))"
  using leave_lobby_result [of d u l] assms
  by (metis keys_ok_mark_left within_capacity_mark_left keys_ok_set_lobby_status
        within_capacity_set_lobby_status)

lemma update_status_result:
  "snd (update_status d u l s) = d \<or> snd (update_status d u l s) = set_lobby_status d l s"
  by (simp add: update_status_def split: list.splits)

lemma lobby_status_update_result:
  "snd (lobby_status_update d u l s) = d \<or> snd (lobby_status_update d u l s) = set_lobby_status d l s"
  by (simp add: lobby_status_update_def)

lemma handle_preserves:
  assumes "keys_ok d" "within_capacity d"
  shows "keys_ok (handle d r) \<and> within_capacity (handle d r)"
proof (cases r)
  case (CreateLobby u b g n)
  then show ?thesis using create_lobby_preserves [OF assms] by simp
next
  case (JoinLobby u l p)
  then show ?thesis using join_lobby_preserves [OF assms] by simp
next
  case (LeaveLobby u l)
  then show ?thesis using leave_lobby_preserves [OF assms] by simp
next
  case (UpdateStatus u l s)
  then show ?thesis
    using update_status_result [of d u l s] assms
    by (metis handle.simps(4) keys_ok_set_lobby_status within_capacity_set_lobby_status)
next
  case (SocketStatusUpdate u l s)
  then show ?thesis
    using lobby_status_update_result [of d u l s] assms
    by (metis handle.simps(5) keys_ok_set_lobby_status within_capacity_set_lobby_status)
qed

lemma run_preserves:
  "keys_ok d \<Longrightarrow> within_capacity d \<Longrightarrow> keys_ok (run d rs) \<and> within_capacity (run d rs)"
  unfolding run_def
proof (induction rs arbitrary: d)
  case Nil
  then show ?case by simp
next
  case (Cons r rs)
  then show ?case using handle_preserves [of d r] by simp
qed

lemma empty_db_ok: "keys_ok empty_db \<and> within_capacity empty_db"
  by (simp add: keys_ok_def within_capacity_def empty_db_def)

subsection \<open>A membership that was left stays left\<close>

lemma members_of_add_lobby [simp]:
  "members_of (d\<lparr>lobbies := x\<rparr>) l u = members_of d l u"
  "active_members_of (d\<lparr>lobbies := x\<rparr>) l u = active_members_of d l u"
  by (simp_all add: members_of_def active_members_of_def)

lemma members_of_add_member:
  assumes "members_of d (member_lobby_id m) (member_user_id m) = []" "members_of d l u \<noteq> []"
  shows "members_of (d\<lparr>lobby_members := lobby_members d @ [m]\<rparr>) l u = members_of d l u"
    and "active_members_of (d\<lparr>lobby_members := lobby_members d @ [m]\<rparr>) l u = active_members_of d l u"
proof -
  have "\<not> (member_lobby_id m = l \<and> member_user_id m = u)"
    using assms by blast
  then show "members_of (d\<lparr>lobby_members := lobby_members d @ [m]\<rparr>) l u = members_of d l u"
    and "active_members_of (d\<lparr>lobby_members := lobby_members d @ [m]\<rparr>) l u = active_members_of d l u"
    by (simp_all add: members_of_def active_members_of_def) blast
qed

lemma members_of_mark_left:
  assumes "members_of d l u \<noteq> []"
  shows "members_of (mark_left d l' u') l u \<noteq> []"
proof -
  let ?f = "\<lambda>m. if member_lobby_id m = l' \<and> member_user_id m = u'
                 then m\<lparr>member_status := ''left''\<rparr> else m"
  let ?P = "\<lambda>m. member_lobby_id m = l \<and> member_user_id m = u"
  obtain x where x: "x \<in> set (lobby_members d)" "?P x"
    using assms unfolding members_of_def filter_empty_conv by blast
  have "?f x \<in> ?f ` set (lobby_members d)" using x(1) by (rule imageI)
  then have "?f x \<in> set (map ?f (lobby_members d))" by (simp only: set_map)
  moreover have "?P (?f x)" using x(2) by simp
  ultimately have "\<exists>y \<in> set (map ?f (lobby_members d)). ?P y" by blast
  then show ?thesis
    unfolding members_of_def filter_empty_conv lobby_members_mark_left by blast
qed

lemma active_members_of_mark_left:
  assumes "active_members_of d l u = []"
  shows "active_members_of (mark_left d l' u') l u = []"
proof -
  let ?f = "\<lambda>m. if member_lobby_id m = l' \<and> member_user_id m = u'
                 then m\<lparr>member_status := ''left''\<rparr> else m"
  let ?P = "\<lambda>m. member_lobby_id m = l \<and> member_user_id m = u \<and> member_status m = ''active''"
  have imp: "?P (?f x) \<Longrightarrow> ?P x" for x
    by (simp split: if_splits)
  have "\<forall>x \<in> set (lobby_members d). \<not> ?P x"
    using assms unfolding active_members_of_def filter_empty_conv by blast
  then have "\<forall>x \<in> set (lobby_members d). \<not> ?P (?f x)"
    using imp by blast
  then have "\<forall>y \<in> set (map ?f (lobby_members d)). \<not> ?P y"
    unfolding ball_set_map .
  then show ?thesis
    unfolding active_members_of_def filter_empty_conv lobby_members_mark_left by blast
qed

lemma has_left_handle:
  assumes "has_left d l u"
  shows "has_left (handle d r) l u"
proof (cases r)
  case (CreateLobby u' b g n)
  show ?thesis
  proof (cases rule: create_lobby_effect [of d u' b g n])
    case same
    then show ?thesis using assms CreateLobby by simp
  next
    case (lobby_only lobby)
    then show ?thesis using assms CreateLobby by (simp add: has_left_def)
  next
    case (both lobby m)
    let ?d1 = "d\<lparr>lobbies := lobbies d @ [lobby]\<rparr>"
    have eq: "handle d r = ?d1\<lparr>lobby_members := lobby_members ?d1 @ [m]\<rparr>"
      using CreateLobby both(8) by simp
    have a: "members_of ?d1 (member_lobby_id m) (member_user_id m) = []"
      using both(4,5,7) by simp
    have b: "members_of ?d1 l u \<noteq> []" using assms by (simp add: has_left_def)
    show ?thesis
      unfolding has_left_def eq members_of_add_member [OF a b]
      using assms by (simp add: has_left_def)
  qed
next
  case (JoinLobby u' l' p)
  show ?thesis
  proof (cases rule: join_lobby_effect [of d u' l' p])
    case same
    then show ?thesis using assms JoinLobby by simp
  next
    case (added lobby m)
    have eq: "handle d r = d\<lparr>lobby_members := lobby_members d @ [m]\<rparr>"
      using JoinLobby added(6) by simp
    have a: "members_of d (member_lobby_id m) (member_user_id m) = []"
      using added(4,7,8) by simp
    have b: "members_of d l u \<noteq> []" using assms by (simp add: has_left_def)
    show ?thesis
      unfolding has_left_def eq members_of_add_member [OF a b]
      using assms by (simp add: has_left_def)
  qed
next
  case (LeaveLobby u' l')
  have ml: "has_left (mark_left d l' u') l u"
    using assms members_of_mark_left active_members_of_mark_left by (simp add: has_left_def)
  then have "has_left (set_lobby_status (mark_left d l' u') l' ''cancelled'') l u"
    by (simp add: has_left_def)
  then show ?thesis
    using leave_lobby_result [of d u' l'] assms ml LeaveLobby by (metis handle.simps(3))
next
  case (UpdateStatus u' l' s)
  have "has_left (set_lobby_status d l' s) l u" using assms by (simp add: has_left_def)
  then show ?thesis
    using update_status_result [of d u' l' s] assms UpdateStatus by (metis handle.simps(4))
next
  case (SocketStatusUpdate u' l' s)
  have "has_left (set_lobby_status d l' s) l u" using assms by (simp add: has_left_def)
  then show ?thesis
    using lobby_status_update_result [of d u' l' s] assms SocketStatusUpdate
    by (metis handle.simps(5))
qed

lemma has_left_run: "has_left d l u \<Longrightarrow> has_left (run d rs) l u"
  unfolding run_def
proof (induction rs arbitrary: d)
  case Nil
  then show ?case by simp
next
  case (Cons r rs)
  then show ?case using has_left_handle [of d l u r] by simp
qed

subsection \<open>The example stores, written out\<close>

lemma full_db_eq:
  "full_db = two_users\<lparr>lobbies :=
         [\<lparr>lobby_id = 1, creator_id = 7, from_location = ''Bole'',
             to_location = ''Piassa'', departure_time = 0,
             vehicle_type = ''medium'', available_seats = 2,
             price_per_seat = 45, lobby_row_status = ''active''\<rparr>],
       lobby_members :=
         [\<lparr>member_lobby_id = 1, member_user_id = 7,
             pickup_location = ''Bole'', member_status = ''active''\<rparr>,
          \<lparr>member_lobby_id = 1, member_user_id = 8,
             pickup_location = ''Bole'', member_status = ''active''\<rparr>]\<rparr>"
  by code_simp


lemma started_db_eq:
  "started_db = two_users\<lparr>lobbies :=
         [\<lparr>lobby_id = 1, creator_id = 7, from_location = ''Bole'',
             to_location = ''Piassa'', departure_time = 0,
             vehicle_type = ''medium'', available_seats = 2,
             price_per_seat = 45, lobby_row_status = ''started''\<rparr>],
       lobby_members :=
         [\<lparr>member_lobby_id = 1, member_user_id = 7,
             pickup_location = ''Bole'', member_status = ''active''\<rparr>,
          \<lparr>member_lobby_id = 1, member_user_id = 8,
             pickup_location = ''Bole'', member_status = ''active''\<rparr>]\<rparr>"
  by code_simp

lemma completed_db_eq:
  "completed_db = two_users\<lparr>lobbies :=
         [\<lparr>lobby_id = 1, creator_id = 7, from_location = ''Bole'',
             to_location = ''Piassa'', departure_time = 0,
             vehicle_type = ''medium'', available_seats = 2,
             price_per_seat = 45, lobby_row_status = ''completed''\<rparr>],
       lobby_members :=
         [\<lparr>member_lobby_id = 1, member_user_id = 7,
             pickup_location = ''Bole'', member_status = ''active''\<rparr>,
          \<lparr>member_lobby_id = 1, member_user_id = 8,
             pickup_location = ''Bole'', member_status = ''active''\<rparr>]\<rparr>"
  by code_simp

lemma cancelled_db_eq:
  "cancelled_db = two_users\<lparr>lobbies :=
         [\<lparr>lobby_id = 1, creator_id = 7, from_location = ''Bole'',
             to_location = ''Piassa'', departure_time = 0,
             vehicle_type = ''medium'', available_seats = 2,
             price_per_seat = 45, lobby_row_status = ''cancelled''\<rparr>],
       lobby_members :=
         [\<lparr>member_lobby_id = 1, member_user_id = 7,
             pickup_location = ''Bole'', member_status = ''left''\<rparr>,
          \<lparr>member_lobby_id = 1, member_user_id = 8,
             pickup_location = ''Bole'', member_status = ''active''\<rparr>]\<rparr>"
  by code_simp

subsection \<open>Rounding, means and ratings\<close>

lemma round_half_away_close: "\<bar>of_int (round_half_away x) - x\<bar> \<le> 1 / 2"
proof (cases "0 \<le> x")
  case True
  then have r: "round_half_away x = \<lfloor>x + 1 / 2\<rfloor>"
    by (simp add: round_half_away_def)
  have "of_int \<lfloor>x + 1 / 2\<rfloor> \<le> x + 1 / 2" "x + 1 / 2 < of_int \<lfloor>x + 1 / 2\<rfloor> + 1"
    by linarith+
  then show ?thesis unfolding r by linarith
next
  case False
  then have r: "round_half_away x = - \<lfloor>- x + 1 / 2\<rfloor>"
    by (simp add: round_half_away_def)
  have "of_int \<lfloor>- x + 1 / 2\<rfloor> \<le> - x + 1 / 2" "- x + 1 / 2 < of_int \<lfloor>- x + 1 / 2\<rfloor> + 1"
    by linarith+
  then show ?thesis unfolding r of_int_minus by linarith
qed

lemma round2_close: "\<bar>round2 x - x\<bar> \<le> 1 / 200"
proof -
  have "\<bar>of_int (round_half_away (x * 100)) - x * 100\<bar> \<le> 1 / 2"
    by (rule round_half_away_close)
  then have "\<bar>(of_int (round_half_away (x * 100)) - x * 100) / 100\<bar> \<le> (1 / 2) / 100"
    by (simp add: abs_le_iff)
  then show ?thesis by (simp add: round2_def diff_divide_distrib)
qed

lemma to_numeric_3_2: "to_numeric 3 2 x = Some v \<Longrightarrow> v = round2 x"
  by (simp add: to_numeric_def round2_def Let_def split: if_splits)

lemma to_numeric_3_2_fits:
  assumes "1 \<le> x" "x \<le> 5"
  shows "to_numeric 3 2 x = Some (round2 x)"
proof -
  have nn: "0 \<le> x * 100" using assms by simp
  then have r: "round_half_away (x * 100) = \<lfloor>x * 100 + 1 / 2\<rfloor>"
    by (simp add: round_half_away_def)
  have "x * 100 + 1 / 2 < 1000" using assms by simp
  then have "\<lfloor>x * 100 + 1 / 2\<rfloor> < 1000" by (simp add: floor_less_iff)
  moreover have "0 \<le> \<lfloor>x * 100 + 1 / 2\<rfloor>" using nn by (simp add: zero_le_floor)
  ultimately have "\<bar>round_half_away (x * 100)\<bar> < 10 ^ 3" unfolding r by simp
  then show ?thesis by (simp add: to_numeric_def round2_def Let_def)
qed

lemma sum_list_bounds:
  assumes "\<forall>v \<in> set rs. 1 \<le> v \<and> v \<le> (5::int)"
  shows "int (length rs) \<le> sum_list rs \<and> sum_list rs \<le> 5 * int (length rs)"
  using assms by (induction rs) auto

lemma mean_bounds:
  assumes "rs \<noteq> []" "\<forall>v \<in> set rs. 1 \<le> v \<and> v \<le> (5::int)"
  shows "1 \<le> mean rs \<and> mean rs \<le> 5"
proof -
  have n: "0 < (of_nat (length rs) :: rat)" using assms(1) by simp
  have "int (length rs) \<le> sum_list rs" "sum_list rs \<le> 5 * int (length rs)"
    using sum_list_bounds [OF assms(2)] by simp_all
  then have "(of_nat (length rs) :: rat) \<le> of_int (sum_list rs)"
    "(of_int (sum_list rs) :: rat) \<le> 5 * of_nat (length rs)"
    by (metis of_int_le_iff of_int_of_nat_eq, metis of_int_le_iff of_int_mult of_int_numeral of_int_of_nat_eq)
  then show ?thesis using n by (simp add: mean_def pos_le_divide_eq pos_divide_le_eq)
qed

lemma set_user_rating_fields [simp]:
  "ride_participants (set_user_rating d u v) = ride_participants d"
  "lobbies (set_user_rating d u v) = lobbies d"
  "lobby_members (set_user_rating d u v) = lobby_members d"
  by (simp_all add: set_user_rating_def)

lemma ratings_of_set_user_rating [simp]:
  "ratings_of (set_user_rating d u v) p = ratings_of d p"
  by (simp add: ratings_of_def)

lemma users_set_user_rating:
  "users (set_user_rating d u v) =
     map (\<lambda>x. if user_id x = u then x\<lparr>user_rating := v\<rparr> else x) (users d)"
  by (simp add: set_user_rating_def)

lemma user_rating_set_user_rating:
  "\<forall>x \<in> set (users (set_user_rating d u v)). user_id x = u \<longrightarrow> user_rating x = v"
  unfolding users_set_user_rating ball_set_map by simp

lemma ride_participants_set_participant_rating:
  "ride_participants (set_participant_rating d r u v t) =
     map (\<lambda>x. if part_ride_id x = r \<and> part_user_id x = u
               then x\<lparr>part_rating := Some v, review := t\<rparr> else x) (ride_participants d)"
  by (simp add: set_participant_rating_def)

lemma ratings_member:
  "x \<in> set xs \<Longrightarrow> part_rating x = Some r \<Longrightarrow> r \<in> set (ratings xs)"
  by (induction xs) (auto split: option.splits)

lemma ratings_subset:
  "v \<in> set (ratings xs) \<Longrightarrow> \<exists>x \<in> set xs. part_rating x = Some v"
  by (induction xs) (auto split: option.splits)

lemma ratings_of_after_rating:
  assumes "participants_of d rideId p \<noteq> []"
  shows "ratings_of (set_participant_rating d rideId p r t) p \<noteq> []"
proof -
  let ?f = "\<lambda>x. if part_ride_id x = rideId \<and> part_user_id x = p
               then x\<lparr>part_rating := Some r, review := t\<rparr> else x"
  obtain x where x: "x \<in> set (ride_participants d)" "part_ride_id x = rideId" "part_user_id x = p"
    using assms unfolding participants_of_def filter_empty_conv by blast
  have "?f x \<in> ?f ` set (ride_participants d)" using x(1) by (rule imageI)
  then have "?f x \<in> set (map ?f (ride_participants d))" by (simp only: set_map)
  moreover have "part_user_id (?f x) = p" "part_rating (?f x) = Some r"
    using x(2,3) by simp_all
  ultimately have "?f x \<in> set (filter (\<lambda>y. part_user_id y = p) (map ?f (ride_participants d)))"
    by (simp only: set_filter mem_Collect_eq simp_thms)
  then have "r \<in> set (ratings (filter (\<lambda>y. part_user_id y = p) (map ?f (ride_participants d))))"
    using \<open>part_rating (?f x) = Some r\<close> by (rule ratings_member)
  then show ?thesis
    unfolding ratings_of_def ride_participants_set_participant_rating by (metis empty_iff empty_set)
qed

lemma ratings_checked_after_rating:
  assumes "ratings_checked d" "1 \<le> r" "r \<le> 5"
  shows "ratings_checked (set_participant_rating d rideId p r t)"
proof -
  have "\<forall>x \<in> set (ride_participants d).
          (case part_rating (if part_ride_id x = rideId \<and> part_user_id x = p
               then x\<lparr>part_rating := Some r, review := t\<rparr> else x) of
             None \<Rightarrow> True | Some v \<Rightarrow> 1 \<le> v \<and> v \<le> 5)"
    using assms by (simp add: ratings_checked_def)
  then show ?thesis
    unfolding ratings_checked_def ride_participants_set_participant_rating ball_set_map .
qed

lemma ratings_of_checked:
  assumes "ratings_checked d"
  shows "\<forall>v \<in> set (ratings_of d p). 1 \<le> v \<and> v \<le> 5"
proof
  fix v assume "v \<in> set (ratings_of d p)"
  then obtain x where "x \<in> set (filter (\<lambda>y. part_user_id y = p) (ride_participants d))"
    "part_rating x = Some v"
    unfolding ratings_of_def using ratings_subset by blast
  then have "x \<in> set (ride_participants d)" "part_rating x = Some v" by simp_all
  then show "1 \<le> v \<and> v \<le> 5"
    using assms unfolding ratings_checked_def by (metis option.simps(5))
qed

text \<open>The store after a rating that got past the checks of the handler.\<close>

lemma rate_participant_accepted:
  assumes "1 \<le> r" "r \<le> 5" "participants_of d rideId user \<noteq> []" "participants_of d rideId p \<noteq> []"
    "filter (\<lambda>x. part_rating x \<noteq> None) (participants_of d rideId p) = []"
  shows "rate_participant d user rideId (Some p) (Some r) t =
     (case to_numeric 3 2 (mean (ratings_of (set_participant_rating d rideId p r t) p)) of
        None \<Rightarrow> (Response 500 False ''Failed to submit rating'', set_participant_rating d rideId p r t)
      | Some v \<Rightarrow> (Response 200 True ''Rating submitted successfully'',
                   set_user_rating (set_participant_rating d rideId p r t) p (Num v)))"
proof -
  have "avg_rating (set_participant_rating d rideId p r t) p =
          Some (mean (ratings_of (set_participant_rating d rideId p r t) p))"
    using ratings_of_after_rating [OF assms(4)] by (simp add: avg_rating_def)
  then show ?thesis
    using assms by (simp add: rate_participant_def Let_def)
qed

lemma rate_participant_success:
  assumes "success (fst (rate_participant d user rideId pu rating t))"
  obtains p r where "pu = Some p" "rating = Some r" "1 \<le> r" "r \<le> 5"
    "participants_of d rideId user \<noteq> []" "participants_of d rideId p \<noteq> []"
    "filter (\<lambda>x. part_rating x \<noteq> None) (participants_of d rideId p) = []"
proof -
  from assms obtain p r where pr: "pu = Some p" "rating = Some r"
    by (cases pu; cases rating) (simp_all add: rate_participant_def)
  have "1 \<le> r \<and> r \<le> 5 \<and> participants_of d rideId user \<noteq> [] \<and> participants_of d rideId p \<noteq> [] \<and>
    filter (\<lambda>x. part_rating x \<noteq> None) (participants_of d rideId p) = []"
    using assms unfolding pr rate_participant_def
    by (simp split: if_splits)
  then show ?thesis using pr that by blast
qed

subsection \<open>The completion handler has no client\<close>

text \<open>
  \<^verbatim>\<open>query.pool\<close> is \<^verbatim>\<open>undefined\<close>, though the module does export the pool; so
  no request to complete a ride succeeds or writes anything.
\<close>

lemma query_pool_undefined: "query_pool = Undefined"
  by (simp add: query_pool_def database_exports_def)

lemma exported_pool: "property database_exports ''pool'' = PoolObject"
  by (simp add: database_exports_def)

lemma complete_ride_never_writes:
  "snd (complete_ride d user lobbyId totalAmount distanceKm durationMinutes new_id) = d"
  "\<not> success (fst (complete_ride d user lobbyId totalAmount distanceKm durationMinutes new_id))"
  by (simp_all add: complete_ride_def query_pool_undefined Let_def split: list.splits)

subsection \<open>What the transaction of a completion writes when it commits\<close>

text \<open>
  The statements of the transaction, taken by themselves: one ride row, one participant
  row for each member with the rounded share of the fare, the increments of
  \<^verbatim>\<open>total_rides\<close>, the status \<^verbatim>\<open>completed\<close>; and the shares of \<open>n\<close> members add
  up to the fare within \<open>n\<close> half cents.
\<close>

lemma to_numeric_10_2: "to_numeric 10 2 x = Some v \<Longrightarrow> v = round2 x"
  by (simp add: to_numeric_def round2_def Let_def split: if_splits)

lemma add_participants_rows:
  "add_participants d ride a dropoff ms = Some d' \<Longrightarrow>
     ride_participants d' = ride_participants d @
       map (\<lambda>m. \<lparr>part_ride_id = ride, part_user_id = member_user_id m, amount_paid = round2 a,
                  part_pickup_location = pickup_location m, dropoff_location = dropoff,
                  part_rating = None, review = None\<rparr>) ms \<and>
     rides d' = rides d \<and> lobbies d' = lobbies d \<and> lobby_members d' = lobby_members d \<and>
     chat_messages d' = chat_messages d"
proof (induction ms arbitrary: d)
  case Nil
  then show ?case by simp
next
  case (Cons m ms)
  from Cons.prems obtain v where v: "to_numeric 10 2 a = Some v"
    by (cases "to_numeric 10 2 a") simp_all
  have v2: "v = round2 a" using v by (rule to_numeric_10_2)
  let ?d1 = "d\<lparr>ride_participants := ride_participants d @
                     [\<lparr>part_ride_id = ride, part_user_id = member_user_id m,
                       amount_paid = v, part_pickup_location = pickup_location m,
                       dropoff_location = dropoff, part_rating = None, review = None\<rparr>]\<rparr>"
  let ?d2 = "?d1\<lparr>users := map (\<lambda>u. if user_id u = member_user_id m
                                         then u\<lparr>total_rides := total_rides u + 1\<rparr> else u)
                                  (users ?d1)\<rparr>"
  have "add_participants ?d2 ride a dropoff ms = Some d'"
    using Cons.prems v by (simp add: Let_def)
  from Cons.IH [OF this] show ?case by (simp add: v2)
qed

lemma add_participants_total_rides:
  "add_participants d ride a dropoff ms = Some d' \<Longrightarrow>
     map (\<lambda>u. (user_id u, total_rides u)) (users d') =
     map (\<lambda>u. (user_id u,
                total_rides u + int (length (filter (\<lambda>m. member_user_id m = user_id u) ms))))
       (users d)"
proof (induction ms arbitrary: d)
  case Nil
  then show ?case by simp
next
  case (Cons m ms)
  from Cons.prems obtain v where v: "to_numeric 10 2 a = Some v"
    by (cases "to_numeric 10 2 a") simp_all
  let ?d1 = "d\<lparr>ride_participants := ride_participants d @
                     [\<lparr>part_ride_id = ride, part_user_id = member_user_id m,
                       amount_paid = v, part_pickup_location = pickup_location m,
                       dropoff_location = dropoff, part_rating = None, review = None\<rparr>]\<rparr>"
  let ?d2 = "?d1\<lparr>users := map (\<lambda>u. if user_id u = member_user_id m
                                         then u\<lparr>total_rides := total_rides u + 1\<rparr> else u)
                                  (users ?d1)\<rparr>"
  have "add_participants ?d2 ride a dropoff ms = Some d'"
    using Cons.prems v by (simp add: Let_def)
  from Cons.IH [OF this] show ?case by (simp add: comp_def)
qed

lemma complete_transaction_commit:
  assumes "complete_transaction d lobby user ms a t k m n = Some d'"
  shows "map ride_id (rides d') = map ride_id (rides d) @ [n] \<and>
         ride_participants d' = ride_participants d @
           map (\<lambda>m. \<lparr>part_ride_id = n, part_user_id = member_user_id m, amount_paid = round2 a,
                      part_pickup_location = pickup_location m,
                      dropoff_location = to_location lobby,
                      part_rating = None, review = None\<rparr>) ms \<and>
         lobbies d' =
           map (\<lambda>x. if lobby_id x = lobby_id lobby then x\<lparr>lobby_row_status := ''completed''\<rparr> else x)
             (lobbies d)"
proof -
  from assms obtain t' k' where tk: "to_numeric 10 2 t = Some t'" "to_numeric 8 2 k = Some k'"
    by (cases "to_numeric 10 2 t"; cases "to_numeric 8 2 k") (simp_all add: complete_transaction_def)
  let ?d1 = "d\<lparr>rides := rides d @
                       [\<lparr>ride_id = n, ride_lobby_id = lobby_id lobby, driver_id = user,
                         ride_from_location = from_location lobby,
                         ride_to_location = to_location lobby,
                         ride_departure_time = departure_time lobby,
                         total_amount = t', distance_km = k',
                         duration_minutes = m, ride_status = ''completed''\<rparr>]\<rparr>"
  from assms tk obtain d2 where d2: "add_participants ?d1 n a (to_location lobby) ms = Some d2"
    and d': "d' = set_lobby_status d2 (lobby_id lobby) ''completed''"
    by (cases "add_participants ?d1 n a (to_location lobby) ms")
       (simp_all add: complete_transaction_def Let_def split: if_splits)
  from add_participants_rows [OF d2] show ?thesis
    unfolding d' by (simp add: lobbies_set_lobby_status)
qed

lemma fare_split_close:
  assumes "0 < n"
  shows "\<bar>of_nat n * round2 (t / of_nat n) - t\<bar> \<le> of_nat n / 200"
proof -
  have n: "0 < (of_nat n :: rat)" using assms by simp
  have "\<bar>round2 (t / of_nat n) - t / of_nat n\<bar> \<le> 1 / 200"
    by (rule round2_close)
  then have "of_nat n * \<bar>round2 (t / of_nat n) - t / of_nat n\<bar> \<le> of_nat n * (1 / 200)"
    using n by (simp only: mult_le_cancel_left_pos)
  moreover have "of_nat n * \<bar>round2 (t / of_nat n) - t / of_nat n\<bar>
      = \<bar>of_nat n * round2 (t / of_nat n) - t\<bar>"
  proof -
    have "of_nat n * \<bar>round2 (t / of_nat n) - t / of_nat n\<bar>
        = \<bar>(of_nat n :: rat)\<bar> * \<bar>round2 (t / of_nat n) - t / of_nat n\<bar>"
      using n by simp
    also have "\<dots> = \<bar>of_nat n * (round2 (t / of_nat n) - t / of_nat n)\<bar>"
      by (simp only: abs_mult)
    also have "of_nat n * (round2 (t / of_nat n) - t / of_nat n)
        = of_nat n * round2 (t / of_nat n) - t"
      using n by (simp add: right_diff_distrib)
    finally show ?thesis .
  qed
  ultimately show ?thesis by simp
qed

subsection \<open>Joining a full lobby\<close>

lemma join_lobby_full:
  assumes full: "\<forall>x \<in> set (lobbies d). lobby_id x = l \<longrightarrow>
                   available_seats x \<le> int (length (active_members d l))"
  shows "snd (join_lobby d u l p) = d" and "\<not> success (fst (join_lobby d u l p))"
proof -
  have "snd (join_lobby d u l p) = d \<and> \<not> success (fst (join_lobby d u l p))"
  proof (cases rule: join_lobby_effect [of d u l p])
    case same
    then show ?thesis by simp
  next
    case (added lobby m)
    then have "available_seats lobby \<le> int (length (active_members d l))"
      using full by blast
    then show ?thesis using added(5) by simp
  qed
  then show "snd (join_lobby d u l p) = d" and "\<not> success (fst (join_lobby d u l p))"
    by simp_all
qed

lemma join_lobby_full_message:
  assumes full: "\<forall>x \<in> set (lobbies d). lobby_id x = l \<longrightarrow>
                   available_seats x \<le> int (length (active_members d l))"
    and active: "\<exists>x \<in> set (lobbies d). lobby_id x = l \<and> lobby_row_status x = ''active''"
    and nomem: "members_of d l u = []"
  shows "fst (join_lobby d u l p) = Response 400 False ''Lobby is full''"
proof (cases "filter (\<lambda>x. lobby_id x = l \<and> lobby_row_status x = ''active'') (lobbies d)")
  case Nil
  then show ?thesis using active unfolding filter_empty_conv by blast
next
  case (Cons lobby rest)
  then have "lobby \<in> set (filter (\<lambda>x. lobby_id x = l \<and> lobby_row_status x = ''active'') (lobbies d))"
    by simp
  then have "lobby \<in> set (lobbies d)" "lobby_id lobby = l" by simp_all
  then have "available_seats lobby \<le> int (length (active_members d l))"
    using full by blast
  then show ?thesis using Cons nomem by (simp add: join_lobby_def)
qed

subsection \<open>The REST route validates what it stores\<close>

lemma post_message_rows_ok:
  assumes "\<forall>c \<in> set (chat_messages d). chat_row_ok c"
  shows "\<forall>c \<in> set (chat_messages (snd (post_message d user lobbyId msg messageType))). chat_row_ok c"
proof (cases "sendMessageValidation msg messageType \<and> active_members_of d lobbyId user \<noteq> []")
  case False
  then have "snd (post_message d user lobbyId msg messageType) = d"
    by (auto simp: post_message_def)
  then show ?thesis using assms by simp
next
  case True
  let ?c = "\<lparr>chat_lobby_id = lobbyId, chat_user_id = user, chat_message = trim msg,
             message_type = (case messageType of None \<Rightarrow> ''text'' | Some t \<Rightarrow> t)\<rparr>"
  have ok: "chat_row_ok ?c"
    using True by (cases messageType) (simp_all add: sendMessageValidation_def chat_row_ok_def)
  have "chat_messages (snd (post_message d user lobbyId msg messageType)) = chat_messages d \<or>
        chat_messages (snd (post_message d user lobbyId msg messageType)) = chat_messages d @ [?c]"
    using True by (simp add: post_message_def insert_chat_message_def)
  then show ?thesis using assms ok by auto
qed

section \<open>Leaving a lobby\<close>

text \<open>
  C7. When a user with an active membership leaves a lobby, the request succeeds, every
  membership row of that user in that lobby is marked \<^verbatim>\<open>left\<close> and no other row of
  the table changes; when the leaver is the creator of the lobby the status of the lobby is
  set to \<^verbatim>\<open>cancelled\<close> in the same request, and when the leaver is not the creator the
  lobbies are unchanged.
\<close>

theorem leave_cascades_when_creator:
  assumes act: "active_members_of d lobbyId user \<noteq> []"
      and lob: "filter (\<lambda>l. lobby_id l = lobbyId) (lobbies d) = lobby # rest"
  shows "fst (leave_lobby d user lobbyId) = Response 200 True ''Successfully left lobby'' \<and>
         (\<forall>m \<in> set (lobby_members (snd (leave_lobby d user lobbyId))).
              member_lobby_id m = lobbyId \<and> member_user_id m = user \<longrightarrow> member_status m = ''left'') \<and>
         length (lobby_members (snd (leave_lobby d user lobbyId))) = length (lobby_members d) \<and>
         (\<forall>i < length (lobby_members d).
              \<not> (member_lobby_id (lobby_members d ! i) = lobbyId \<and>
                 member_user_id (lobby_members d ! i) = user) \<longrightarrow>
              lobby_members (snd (leave_lobby d user lobbyId)) ! i = lobby_members d ! i) \<and>
         (creator_id lobby = user \<longrightarrow>
            lobbies (snd (leave_lobby d user lobbyId)) =
              map (\<lambda>l. if lobby_id l = lobbyId then l\<lparr>lobby_row_status := ''cancelled''\<rparr> else l)
                (lobbies d)) \<and>
         (creator_id lobby \<noteq> user \<longrightarrow> lobbies (snd (leave_lobby d user lobbyId)) = lobbies d)"
proof -
  let ?d1 = "mark_left d lobbyId user"
  have lob1: "filter (\<lambda>l. lobby_id l = lobbyId) (lobbies ?d1) = lobby # rest"
    using lob by simp
  have res: "leave_lobby d user lobbyId =
      (Response 200 True ''Successfully left lobby'',
       if creator_id lobby = user then set_lobby_status ?d1 lobbyId ''cancelled'' else ?d1)"
    using act lob1 by (simp add: leave_lobby_def Let_def)
  have mem: "lobby_members (snd (leave_lobby d user lobbyId)) = lobby_members ?d1"
    by (simp add: res)
  have lobs: "lobbies (snd (leave_lobby d user lobbyId)) =
      (if creator_id lobby = user
       then map (\<lambda>l. if lobby_id l = lobbyId then l\<lparr>lobby_row_status := ''cancelled''\<rparr> else l)
              (lobbies d)
       else lobbies d)"
    by (simp add: res lobbies_set_lobby_status)
  have m1: "\<forall>m \<in> set (lobby_members ?d1).
      member_lobby_id m = lobbyId \<and> member_user_id m = user \<longrightarrow> member_status m = ''left''"
    unfolding lobby_members_mark_left ball_set_map by simp blast
  have m2: "length (lobby_members ?d1) = length (lobby_members d)"
    by (simp add: lobby_members_mark_left)
  have m3: "\<forall>i < length (lobby_members d).
              \<not> (member_lobby_id (lobby_members d ! i) = lobbyId \<and>
                 member_user_id (lobby_members d ! i) = user) \<longrightarrow>
              lobby_members ?d1 ! i = lobby_members d ! i"
    by (simp add: lobby_members_mark_left)
  have r1: "fst (leave_lobby d user lobbyId) = Response 200 True ''Successfully left lobby''"
    by (simp add: res)
  show ?thesis
    unfolding mem using r1 m1 m2 m3 lobs by simp
qed

theorem leave_cascades_when_creator_witness:
  "active_members_of full_db 1 7 \<noteq> [] \<and> active_members_of full_db 1 8 \<noteq> [] \<and>
   map creator_id (filter (\<lambda>l. lobby_id l = 1) (lobbies full_db)) = [7] \<and>
   map lobby_row_status (lobbies full_db) = [''active''] \<and>
   fst (leave_lobby full_db 7 1) = Response 200 True ''Successfully left lobby'' \<and>
   map lobby_row_status (lobbies (snd (leave_lobby full_db 7 1))) = [''cancelled''] \<and>
   fst (leave_lobby full_db 8 1) = Response 200 True ''Successfully left lobby'' \<and>
   lobbies (snd (leave_lobby full_db 8 1)) = lobbies full_db"
proof -
  let ?lobby = "\<lparr>lobby_id = 1, creator_id = 7, from_location = ''Bole'',
             to_location = ''Piassa'', departure_time = 0,
             vehicle_type = ''medium'', available_seats = 2,
             price_per_seat = 45, lobby_row_status = ''active''\<rparr>"
  have a7: "active_members_of full_db 1 7 \<noteq> []"
    by (simp add: full_db_eq active_members_of_def)
  have a8: "active_members_of full_db 1 8 \<noteq> []"
    by (simp add: full_db_eq active_members_of_def)
  have l: "filter (\<lambda>l. lobby_id l = 1) (lobbies full_db) = ?lobby # []"
    by (simp add: full_db_eq)
  have ls: "lobbies full_db = [?lobby]"
    by (simp add: full_db_eq)
  have c7: "creator_id ?lobby = 7" and c8: "creator_id ?lobby \<noteq> 8" by simp_all
  note t7 = leave_cascades_when_creator [OF a7 l]
  note t8 = leave_cascades_when_creator [OF a8 l]
  have "lobbies (snd (leave_lobby full_db 7 1)) =
      map (\<lambda>l. if lobby_id l = 1 then l\<lparr>lobby_row_status := ''cancelled''\<rparr> else l) (lobbies full_db)"
    using t7 c7 by blast
  then have s7: "map lobby_row_status (lobbies (snd (leave_lobby full_db 7 1))) = [''cancelled'']"
    by (simp add: ls)
  have s8: "lobbies (snd (leave_lobby full_db 8 1)) = lobbies full_db"
    using t8 c8 by blast
  show ?thesis
    using a7 a8 s7 s8 t7 t8 by (simp add: ls)
qed

section \<open>Status updates\<close>

text \<open>
  The creator of a completed lobby asks for \<^verbatim>\<open>active\<close>, which no edge of the graph
  Open\<rightarrow>Started, Started\<rightarrow>Completed, Open\<rightarrow>Cancelled, Started\<rightarrow>Cancelled reaches
  from Completed: the request succeeds and the lobby is active again. The handler has no
  table of transitions.
\<close>

theorem status_update_ignores_current_state:
  "map lobby_row_status (lobbies completed_db) = [''completed''] \<and>
   fst (update_status completed_db 7 1 ''active'') =
     Response 200 True ''Lobby status updated successfully'' \<and>
   map lobby_row_status (lobbies (snd (update_status completed_db 7 1 ''active''))) = [''active'']"
  by code_simp

text \<open>
  C2, amended. A \<^verbatim>\<open>PUT /:id/status\<close> request that names a target outside
  \<^verbatim>\<open>active\<close>, \<^verbatim>\<open>started\<close>, \<^verbatim>\<open>completed\<close>, \<^verbatim>\<open>cancelled\<close> fails with
  \<^verbatim>\<open>Invalid status\<close> and leaves the store unchanged; a request of the creator that
  names one of the four succeeds and sets the status of the lobby to the target, whatever
  the current status is, and changes no membership.
\<close>

theorem update_status_checks_target_name_only:
  "(status \<notin> set [''active'', ''started'', ''completed'', ''cancelled''] \<longrightarrow>
      update_status d user lobbyId status = (Response 400 False ''Invalid status'', d)) \<and>
   (status \<in> set [''active'', ''started'', ''completed'', ''cancelled''] \<and>
    filter (\<lambda>l. lobby_id l = lobbyId) (lobbies d) = lobby # rest \<and> creator_id lobby = user \<longrightarrow>
      fst (update_status d user lobbyId status) =
        Response 200 True ''Lobby status updated successfully'' \<and>
      lobbies (snd (update_status d user lobbyId status)) =
        map (\<lambda>l. if lobby_id l = lobbyId then l\<lparr>lobby_row_status := status\<rparr> else l) (lobbies d) \<and>
      lobby_members (snd (update_status d user lobbyId status)) = lobby_members d)"
  by (simp add: update_status_def lobbies_set_lobby_status)

theorem update_status_checks_target_name_only_witness:
  "''paused'' \<notin> set [''active'', ''started'', ''completed'', ''cancelled''] \<and>
   update_status completed_db 7 1 ''paused'' = (Response 400 False ''Invalid status'', completed_db) \<and>
   ''started'' \<in> set [''active'', ''started'', ''completed'', ''cancelled''] \<and>
   map creator_id (filter (\<lambda>l. lobby_id l = 1) (lobbies completed_db)) = [7] \<and>
   map lobby_row_status (lobbies completed_db) = [''completed''] \<and>
   fst (update_status completed_db 7 1 ''started'') =
     Response 200 True ''Lobby status updated successfully'' \<and>
   map lobby_row_status (lobbies (snd (update_status completed_db 7 1 ''started''))) = [''started'']"
proof -
  let ?lobby = "\<lparr>lobby_id = 1, creator_id = 7, from_location = ''Bole'',
             to_location = ''Piassa'', departure_time = 0,
             vehicle_type = ''medium'', available_seats = 2,
             price_per_seat = 45, lobby_row_status = ''completed''\<rparr>"
  have ls: "lobbies completed_db = [?lobby]"
    by (simp add: completed_db_eq)
  have f: "filter (\<lambda>l. lobby_id l = 1) (lobbies completed_db) = ?lobby # []"
    by (simp add: ls)
  have n: "''paused'' \<notin> set [''active'', ''started'', ''completed'', ''cancelled'']"
    and y: "''started'' \<in> set [''active'', ''started'', ''completed'', ''cancelled'']"
    and c: "creator_id ?lobby = 7"
    by simp_all
  have bad: "update_status completed_db 7 1 ''paused'' = (Response 400 False ''Invalid status'', completed_db)"
    using update_status_checks_target_name_only
            [where status = "''paused''" and d = completed_db and user = 7 and lobbyId = 1] n by blast
  have good: "fst (update_status completed_db 7 1 ''started'') =
        Response 200 True ''Lobby status updated successfully'' \<and>
      lobbies (snd (update_status completed_db 7 1 ''started'')) =
        map (\<lambda>l. if lobby_id l = 1 then l\<lparr>lobby_row_status := ''started''\<rparr> else l) (lobbies completed_db)"
    using update_status_checks_target_name_only
            [where status = "''started''" and d = completed_db and user = 7 and lobbyId = 1
               and lobby = ?lobby and rest = "[]"] y f c
    by blast
  then have "map lobby_row_status (lobbies (snd (update_status completed_db 7 1 ''started''))) = [''started'']"
    by (simp add: ls)
  then show ?thesis using bad good n y by (simp add: ls)
qed

section \<open>Capacity\<close>




section \<open>Joining after leaving\<close>

text \<open>
  The creator, user 7, left the lobby, which cancelled it; the membership row is still
  there with status \<^verbatim>\<open>left\<close>. The join attempt of user 7 fails, but with
  \<^verbatim>\<open>Lobby not found or not active\<close>: the lobby check stands before the membership
  check.
\<close>

theorem join_after_leave_lobby_cancelled:
  "cancelled_db = run full_db [LeaveLobby 7 1] \<and>
   map member_status (members_of cancelled_db 1 7) = [''left''] \<and>
   join_lobby cancelled_db 7 1 None =
     (Response 404 False ''Lobby not found or not active'', cancelled_db)"
  by code_simp

text \<open>
  C9, amended. If any membership row exists for a lobby and a user, also one whose
  status is \<^verbatim>\<open>left\<close>, a join attempt of that user inserts nothing and fails: with the
  already-a-member error when the lobby is active, and with
  \<^verbatim>\<open>Lobby not found or not active\<close> otherwise. Consequently a user who has left a
  lobby never has an active membership of it again, whatever requests follow.
\<close>

theorem left_member_cannot_rejoin:
  assumes "members_of d lobbyId user \<noteq> []"
  shows "snd (join_lobby d user lobbyId pickup) = d \<and>
         fst (join_lobby d user lobbyId pickup) =
           (if \<exists>x \<in> set (lobbies d). lobby_id x = lobbyId \<and> lobby_row_status x = ''active''
            then Response 400 False ''You are already a member of this lobby''
            else Response 404 False ''Lobby not found or not active'') \<and>
         (active_members_of d lobbyId user = [] \<longrightarrow>
            members_of (run d rs) lobbyId user \<noteq> [] \<and>
            active_members_of (run d rs) lobbyId user = [])"
proof -
  have j: "join_lobby d user lobbyId pickup =
      (if \<exists>x \<in> set (lobbies d). lobby_id x = lobbyId \<and> lobby_row_status x = ''active''
       then Response 400 False ''You are already a member of this lobby''
       else Response 404 False ''Lobby not found or not active'', d)"
  proof (cases "filter (\<lambda>x. lobby_id x = lobbyId \<and> lobby_row_status x = ''active'') (lobbies d)")
    case Nil
    then have "\<not> (\<exists>x \<in> set (lobbies d). lobby_id x = lobbyId \<and> lobby_row_status x = ''active'')"
      unfolding filter_empty_conv by blast
    then show ?thesis using Nil by (simp add: join_lobby_def)
  next
    case (Cons lobby rest)
    then have "lobby \<in> set (filter (\<lambda>x. lobby_id x = lobbyId \<and> lobby_row_status x = ''active'') (lobbies d))"
      by simp
    then have "\<exists>x \<in> set (lobbies d). lobby_id x = lobbyId \<and> lobby_row_status x = ''active''"
      by auto
    then show ?thesis using Cons assms by (simp add: join_lobby_def)
  qed
  have "active_members_of d lobbyId user = [] \<longrightarrow> has_left (run d rs) lobbyId user"
    using assms has_left_run [of d lobbyId user rs] by (simp add: has_left_def)
  then show ?thesis using j by (simp add: has_left_def)
qed

theorem left_member_cannot_rejoin_witness:
  "members_of cancelled_db 1 7 \<noteq> [] \<and> active_members_of cancelled_db 1 7 = [] \<and>
   \<not> (\<exists>x \<in> set (lobbies cancelled_db). lobby_id x = 1 \<and> lobby_row_status x = ''active'') \<and>
   join_lobby cancelled_db 7 1 None =
     (Response 404 False ''Lobby not found or not active'', cancelled_db) \<and>
   active_members_of
     (run cancelled_db [UpdateStatus 8 1 ''active'', SocketStatusUpdate 7 1 ''active'',
                        JoinLobby 7 1 (Some ''Mexico'')]) 1 7 = []"
proof -
  have m: "members_of cancelled_db 1 7 \<noteq> []"
    by (simp add: cancelled_db_eq members_of_def)
  have a: "active_members_of cancelled_db 1 7 = []"
    by (simp add: cancelled_db_eq active_members_of_def)
  have n: "\<not> (\<exists>x \<in> set (lobbies cancelled_db). lobby_id x = 1 \<and> lobby_row_status x = ''active'')"
    by (simp add: cancelled_db_eq)
  note t = left_member_cannot_rejoin [OF m, of None
      "[UpdateStatus 8 1 ''active'', SocketStatusUpdate 7 1 ''active'', JoinLobby 7 1 (Some ''Mexico'')]"]
  have "join_lobby cancelled_db 7 1 None =
     (Response 404 False ''Lobby not found or not active'', cancelled_db)"
    using t n by (metis prod.collapse)
  then show ?thesis using m a n t by blast
qed

section \<open>Chat messages\<close>

text \<open>
  C8. User 8, an active member of lobby 1, sends the socket event \<^verbatim>\<open>send_message\<close>
  with an empty message of kind \<^verbatim>\<open>video\<close>: the handler stores the row and
  broadcasts it, though the message has no character and the kind is none of text, image,
  location. The REST route refuses the same body (\<open>post_message_rows_ok\<close>).
\<close>

theorem send_message_stores_unvalidated:
  "active_members_of full_db 1 8 \<noteq> [] \<and>
   fst (send_message full_db 8 1 [] (Some ''video'')) = NewMessage 1 8 [] ''video'' \<and>
   chat_messages (snd (send_message full_db 8 1 [] (Some ''video''))) =
     [\<lparr>chat_lobby_id = 1, chat_user_id = 8, chat_message = [], message_type = ''video''\<rparr>] \<and>
   \<not> chat_row_ok \<lparr>chat_lobby_id = 1, chat_user_id = 8, chat_message = [], message_type = ''video''\<rparr>"
  by code_simp

section \<open>Completing a ride\<close>




section \<open>Ratings\<close>




text \<open>
  C10. The handler never compares rater and ratee: a participant of a ride whose own row
  has no rating yet can rate themselves with any score from 1 to 5; the call succeeds, the
  score is among the participant's ratings, and the participant's stored rating is the
  rounded mean that includes it.
\<close>

theorem self_rating_accepted:
  assumes "participants_of d rideId user \<noteq> []"
    and "filter (\<lambda>x. part_rating x \<noteq> None) (participants_of d rideId user) = []"
    and "1 \<le> r" and "r \<le> 5"
    and "ratings_checked d"
  shows "fst (rate_participant d user rideId (Some user) (Some r) review_text) =
           Response 200 True ''Rating submitted successfully'' \<and>
         r \<in> set (ratings_of (snd (rate_participant d user rideId (Some user) (Some r) review_text)) user) \<and>
         (\<forall>u \<in> set (users (snd (rate_participant d user rideId (Some user) (Some r) review_text))).
            user_id u = user \<longrightarrow>
            user_rating u = Num (round2 (mean (ratings_of
              (snd (rate_participant d user rideId (Some user) (Some r) review_text)) user))))"
proof -
  let ?d1 = "set_participant_rating d rideId user r review_text"
  let ?m = "mean (ratings_of ?d1 user)"
  note acc = rate_participant_accepted [OF assms(3,4,1,1,2), of review_text]
  have ne: "ratings_of ?d1 user \<noteq> []"
    using assms(1) by (rule ratings_of_after_rating)
  have "ratings_checked ?d1"
    using assms(5,3,4) by (rule ratings_checked_after_rating)
  then have "\<forall>v \<in> set (ratings_of ?d1 user). 1 \<le> v \<and> v \<le> 5"
    by (rule ratings_of_checked)
  then have "1 \<le> ?m \<and> ?m \<le> 5"
    using ne mean_bounds by blast
  then have fits: "to_numeric 3 2 ?m = Some (round2 ?m)"
    using to_numeric_3_2_fits by blast
  have res: "rate_participant d user rideId (Some user) (Some r) review_text =
      (Response 200 True ''Rating submitted successfully'',
       set_user_rating ?d1 user (Num (round2 ?m)))"
    using acc fits by simp
  have mem: "r \<in> set (ratings_of ?d1 user)"
  proof -
    let ?f = "\<lambda>x. if part_ride_id x = rideId \<and> part_user_id x = user
               then x\<lparr>part_rating := Some r, review := review_text\<rparr> else x"
    obtain x where x: "x \<in> set (ride_participants d)" "part_ride_id x = rideId" "part_user_id x = user"
      using assms(1) unfolding participants_of_def filter_empty_conv by blast
    have "?f x \<in> ?f ` set (ride_participants d)" using x(1) by (rule imageI)
    then have "?f x \<in> set (map ?f (ride_participants d))" by (simp only: set_map)
    moreover have p: "part_user_id (?f x) = user" "part_rating (?f x) = Some r"
      using x(2,3) by simp_all
    ultimately have "?f x \<in> set (filter (\<lambda>y. part_user_id y = user) (map ?f (ride_participants d)))"
      by (simp only: set_filter mem_Collect_eq simp_thms)
    then have "r \<in> set (ratings (filter (\<lambda>y. part_user_id y = user) (map ?f (ride_participants d))))"
      using p(2) by (rule ratings_member)
    then show ?thesis
      unfolding ratings_of_def ride_participants_set_participant_rating .
  qed
  show ?thesis
    unfolding res fst_conv snd_conv ratings_of_set_user_rating
    using mem user_rating_set_user_rating [of ?d1 user "Num (round2 ?m)"] by blast
qed

theorem self_rating_accepted_witness:
  "participants_of rated_db 5 7 \<noteq> [] \<and>
   filter (\<lambda>x. part_rating x \<noteq> None) (participants_of rated_db 5 7) = [] \<and>
   ratings_checked rated_db \<and>
   map user_rating (filter (\<lambda>u. user_id u = 7) (users rated_db)) = [Num (9 / 2)] \<and>
   fst (rate_participant rated_db 7 5 (Some 7) (Some 1) None) =
     Response 200 True ''Rating submitted successfully'' \<and>
   map user_rating (filter (\<lambda>u. user_id u = 7)
     (users (snd (rate_participant rated_db 7 5 (Some 7) (Some 1) None)))) = [Num (333 / 100)]"
proof -
  have a: "participants_of rated_db 5 7 \<noteq> []"
    and b: "filter (\<lambda>x. part_rating x \<noteq> None) (participants_of rated_db 5 7) = []"
    and c: "ratings_checked rated_db"
    by (simp_all add: rated_db_def participant_def participants_of_def ratings_checked_def)
  have before: "map user_rating (filter (\<lambda>u. user_id u = 7) (users rated_db)) = [Num (9 / 2)]"
    by (simp add: rated_db_def)
  have after: "map user_rating (filter (\<lambda>u. user_id u = 7)
     (users (snd (rate_participant rated_db 7 5 (Some 7) (Some 1) None)))) = [Num (333 / 100)]"
    by code_simp
  have "fst (rate_participant rated_db 7 5 (Some 7) (Some 1) None) =
     Response 200 True ''Rating submitted successfully''"
    using self_rating_accepted [OF a b _ _ c, of 1 None] by simp
  then show ?thesis using a b c before after by blast
qed

end
